theory Spec2Isabelle
  imports Complex_Main
begin

section \<open>The two-coin EM example of the chapter 4 notebook\<close>

text \<open>
  The notebook \<^verbatim>\<open>ch4/ch4_notes.ipynb\<close> (Python 2.7) works one iteration of
  Expectation-Maximization for two biased coins: cell 2 defines \<^verbatim>\<open>compute_joint_pr\<close>,
  cell 3 fills the table \<^verbatim>\<open>jps\<close> of responsibilities (the E step), cell 4 adds the
  expected head and tail counts and sums them, and the markdown cell after it states the
  division that gives the new parameters (the M step).

  The cells are read twice. Over the reals, with exact arithmetic: this reading gives the
  numbers the notebook prints and the algebra of the two steps. Over IEEE binary64 doubles
  (the names prefixed \<open>d_\<close>), every operation rounded to nearest with ties to even, with
  gradual underflow and overflow to infinity: this reading decides what the E step stores
  in the third decimal and when its normalizer \<open>t\<close> is zero, where the program and the exact
  reading part. The globals \<^verbatim>\<open>data\<close>, \<^verbatim>\<open>theta_A\<close> and \<^verbatim>\<open>theta_B\<close> of cell 1 are the
  parameters of the model; the literals \<^verbatim>\<open>5\<close> (rows of the table) and \<^verbatim>\<open>10\<close>
  (trials per draw) stay literals, as they are in the cells.
\<close>

subsection \<open>Errors and arithmetic of Python 2\<close>

datatype error = ZeroDivisionError | IndexError | OverflowError

text \<open>
  \<^verbatim>\<open>b ** e\<close> for a float base and an int exponent. A negative exponent gives the
  reciprocal of the positive power, and raises \<^verbatim>\<open>ZeroDivisionError\<close> on base zero;
  \<^verbatim>\<open>0.0 ** 0\<close> is \<^verbatim>\<open>1.0\<close>.
\<close>

definition float_pow :: "real \<Rightarrow> int \<Rightarrow> error + real" where
  "float_pow b e =
     (if 0 \<le> e then Inr (b ^ nat e)
      else if b = 0 then Inl ZeroDivisionError
      else Inr (1 / b ^ nat (- e)))"

text \<open>
  \<^verbatim>\<open>round(x, d)\<close> of Python 2: the closest multiple of \<open>10\<^sup>-\<^sup>d\<close>, and of two
  equally close multiples the one away from zero.
\<close>

definition py_round :: "real \<Rightarrow> nat \<Rightarrow> real" where
  "py_round x d =
     (if 0 \<le> x then of_int \<lfloor>x * 10 ^ d + 1 / 2\<rfloor> / 10 ^ d
      else - (of_int \<lfloor>- x * 10 ^ d + 1 / 2\<rfloor> / 10 ^ d))"

subsection \<open>Cell 2: the likelihood of a draw\<close>

text \<open>
  \<^verbatim>\<open>def compute_joint_pr(x, theta, n=10): return theta**x * (1-theta)**(n-x)\<close>
\<close>

definition compute_joint_pr :: "int \<Rightarrow> real \<Rightarrow> int \<Rightarrow> error + real" where
  "compute_joint_pr x theta n =
     (case float_pow theta x of
        Inl e \<Rightarrow> Inl e
      | Inr p \<Rightarrow>
          (case float_pow (1 - theta) (n - x) of
             Inl e \<Rightarrow> Inl e
           | Inr q \<Rightarrow> Inr (p * q)))"

subsection \<open>Cell 3: the E step\<close>

text \<open>
  A row of the table \<^verbatim>\<open>jps\<close>, later the data frame \<^verbatim>\<open>df\<close> with the columns
  \<^verbatim>\<open>draw\<close>, \<^verbatim>\<open>x(#heads)\<close>, \<^verbatim>\<open>lk_A\<close>, \<^verbatim>\<open>lk_B\<close>.
\<close>

record row =
  draw :: real
  x_heads :: real
  lk_A :: real
  lk_B :: real

text \<open>\<^verbatim>\<open>jps = np.zeros((5, 4))\<close>\<close>

definition np_zeros :: "nat \<Rightarrow> row list" where
  "np_zeros m = replicate m \<lparr>draw = 0, x_heads = 0, lk_A = 0, lk_B = 0\<rparr>"

text \<open>
  One pass of the loop body for the draw \<open>heads\<close> at index \<open>i\<close> of a table of \<open>nrows\<close> rows:
  the row it writes, or the error it raises. The two likelihoods are computed first (with
  the default \<^verbatim>\<open>n=10\<close>), the write \<^verbatim>\<open>jps[i, 0] = i+1\<close> raises \<^verbatim>\<open>IndexError\<close> past the
  last row, and the unguarded division \<^verbatim>\<open>lk_A/t\<close> raises \<^verbatim>\<open>ZeroDivisionError\<close> when
  \<open>t\<close> is zero.
\<close>

definition e_row :: "nat \<Rightarrow> int \<Rightarrow> real \<Rightarrow> real \<Rightarrow> nat \<Rightarrow> error + row" where
  "e_row i heads theta_A theta_B nrows =
     (case compute_joint_pr heads theta_A 10 of
        Inl e \<Rightarrow> Inl e
      | Inr lkA \<Rightarrow>
          (case compute_joint_pr heads theta_B 10 of
             Inl e \<Rightarrow> Inl e
           | Inr lkB \<Rightarrow>
               (let t = lkA + lkB in
                if nrows \<le> i then Inl IndexError
                else if t = 0 then Inl ZeroDivisionError
                else Inr \<lparr>draw = real (i + 1), x_heads = of_int heads,
                          lk_A = py_round (lkA / t) 3, lk_B = py_round (lkB / t) 3\<rparr>)))"

text \<open>\<^verbatim>\<open>for i, heads in enumerate(data): ...\<close>, from index \<open>i\<close> on, updating \<open>jps\<close>.\<close>

fun e_loop :: "nat \<Rightarrow> int list \<Rightarrow> real \<Rightarrow> real \<Rightarrow> row list \<Rightarrow> error + row list" where
  "e_loop i [] theta_A theta_B jps = Inr jps"
| "e_loop i (heads # rest) theta_A theta_B jps =
     (case e_row i heads theta_A theta_B (length jps) of
        Inl e \<Rightarrow> Inl e
      | Inr r \<Rightarrow> e_loop (i + 1) rest theta_A theta_B (jps[i := r]))"

definition e_step :: "int list \<Rightarrow> real \<Rightarrow> real \<Rightarrow> error + row list" where
  "e_step data theta_A theta_B = e_loop 0 data theta_A theta_B (np_zeros 5)"

subsection \<open>Cell 4 and the formula after it: the M step\<close>

text \<open>
  The four columns cell 4 adds to \<^verbatim>\<open>df\<close>:
  \<^verbatim>\<open>E[#heads z==A] = lk_A * x(#heads)\<close>,
  \<^verbatim>\<open>E[#tails z==A] = (1 - lk_A) * (10 - x(#heads))\<close>,
  \<^verbatim>\<open>E[#heads z==B] = lk_B * x(#heads)\<close>,
  \<^verbatim>\<open>E[#tails z==B] = (1 - lk_B) * (10 - x(#heads))\<close>.
\<close>

record expected =
  E_heads_A :: real
  E_tails_A :: real
  E_heads_B :: real
  E_tails_B :: real

definition expected_row :: "row \<Rightarrow> expected" where
  "expected_row r =
     \<lparr>E_heads_A = lk_A r * x_heads r,
      E_tails_A = (1 - lk_A r) * (10 - x_heads r),
      E_heads_B = lk_B r * x_heads r,
      E_tails_B = (1 - lk_B r) * (10 - x_heads r)\<rparr>"

text \<open>The column sums printed by \<^verbatim>\<open>df[...].sum()\<close>.\<close>

definition expected_sums :: "row list \<Rightarrow> expected" where
  "expected_sums df =
     \<lparr>E_heads_A = sum_list (map (\<lambda>r. E_heads_A (expected_row r)) df),
      E_tails_A = sum_list (map (\<lambda>r. E_tails_A (expected_row r)) df),
      E_heads_B = sum_list (map (\<lambda>r. E_heads_B (expected_row r)) df),
      E_tails_B = sum_list (map (\<lambda>r. E_tails_B (expected_row r)) df)\<rparr>"

text \<open>
  The new parameters, as the notebook states them:
  \<open>\<theta>\<^sub>A = E[heads, z==A] / (E[heads, z==A] + E[tails, z==A])\<close>, and the same for B.
  A quotient with denominator zero is the error a float division raises.
\<close>

definition m_step :: "row list \<Rightarrow> error + real \<times> real" where
  "m_step df =
     (let s = expected_sums df in
      if E_heads_A s + E_tails_A s = 0 then Inl ZeroDivisionError
      else if E_heads_B s + E_tails_B s = 0 then Inl ZeroDivisionError
      else Inr (E_heads_A s / (E_heads_A s + E_tails_A s),
                E_heads_B s / (E_heads_B s + E_tails_B s)))"

subsection \<open>The notebook's own run\<close>

text \<open>Cell 1: \<^verbatim>\<open>data = [5, 9, 8, 4, 7]\<close>, with \<^verbatim>\<open>theta_A, theta_B = 0.6, 0.5\<close>.\<close>

definition notebook_data :: "int list" where
  "notebook_data = [5, 9, 8, 4, 7]"

text \<open>Table 1 as the notebook prints it.\<close>

definition table_1 :: "row list" where
  "table_1 =
     [\<lparr>draw = 1, x_heads = 5, lk_A = 449 / 1000, lk_B = 551 / 1000\<rparr>,
      \<lparr>draw = 2, x_heads = 9, lk_A = 805 / 1000, lk_B = 195 / 1000\<rparr>,
      \<lparr>draw = 3, x_heads = 8, lk_A = 733 / 1000, lk_B = 267 / 1000\<rparr>,
      \<lparr>draw = 4, x_heads = 4, lk_A = 352 / 1000, lk_B = 648 / 1000\<rparr>,
      \<lparr>draw = 5, x_heads = 7, lk_A = 647 / 1000, lk_B = 353 / 1000\<rparr>]"

subsection \<open>The specification's reading of the two steps\<close>

text \<open>
  The specification's M step, in its words: the new parameter of a class is the
  responsibility-weighted sum of heads divided by the responsibility-weighted sum of
  total trials, \<open>\<theta> = \<Sum>(resp \<times> heads) / \<Sum>(resp \<times> n)\<close>, with the class's own
  responsibility in both sums.
\<close>

definition spec_m_step :: "row list \<Rightarrow> real \<Rightarrow> real \<times> real" where
  "spec_m_step df n =
     (sum_list (map (\<lambda>r. lk_A r * x_heads r) df) / sum_list (map (\<lambda>r. lk_A r * n) df),
      sum_list (map (\<lambda>r. lk_B r * x_heads r) df) / sum_list (map (\<lambda>r. lk_B r * n) df))"

text \<open>
  The E step without its two calls of \<^verbatim>\<open>round\<close>, for comparison with the notebook's: the
  same loop, storing the quotients \<open>lk_A/t\<close> and \<open>lk_B/t\<close> themselves.
\<close>

definition e_row_unrounded :: "nat \<Rightarrow> int \<Rightarrow> real \<Rightarrow> real \<Rightarrow> nat \<Rightarrow> error + row" where
  "e_row_unrounded i heads theta_A theta_B nrows =
     (case compute_joint_pr heads theta_A 10 of
        Inl e \<Rightarrow> Inl e
      | Inr lkA \<Rightarrow>
          (case compute_joint_pr heads theta_B 10 of
             Inl e \<Rightarrow> Inl e
           | Inr lkB \<Rightarrow>
               (let t = lkA + lkB in
                if nrows \<le> i then Inl IndexError
                else if t = 0 then Inl ZeroDivisionError
                else Inr \<lparr>draw = real (i + 1), x_heads = of_int heads,
                          lk_A = lkA / t, lk_B = lkB / t\<rparr>)))"

fun e_loop_unrounded ::
  "nat \<Rightarrow> int list \<Rightarrow> real \<Rightarrow> real \<Rightarrow> row list \<Rightarrow> error + row list" where
  "e_loop_unrounded i [] theta_A theta_B jps = Inr jps"
| "e_loop_unrounded i (heads # rest) theta_A theta_B jps =
     (case e_row_unrounded i heads theta_A theta_B (length jps) of
        Inl e \<Rightarrow> Inl e
      | Inr r \<Rightarrow> e_loop_unrounded (i + 1) rest theta_A theta_B (jps[i := r]))"

definition e_step_unrounded :: "int list \<Rightarrow> real \<Rightarrow> real \<Rightarrow> error + row list" where
  "e_step_unrounded data theta_A theta_B = e_loop_unrounded 0 data theta_A theta_B (np_zeros 5)"

text \<open>Rounding the two responsibilities of a row to three decimals.\<close>

definition round_row :: "row \<Rightarrow> row" where
  "round_row r = r\<lparr>lk_A := py_round (lk_A r) 3, lk_B := py_round (lk_B r) 3\<rparr>"

text \<open>The unrounded responsibilities of the notebook's run.\<close>

definition table_1_unrounded :: "row list" where
  "table_1_unrounded =
     [\<lparr>draw = 1, x_heads = 5, lk_A = 7962624 / 17728249, lk_B = 9765625 / 17728249\<rparr>,
      \<lparr>draw = 2, x_heads = 9, lk_A = 40310784 / 50076409, lk_B = 9765625 / 50076409\<rparr>,
      \<lparr>draw = 3, x_heads = 8, lk_A = 26873856 / 36639481, lk_B = 9765625 / 36639481\<rparr>,
      \<lparr>draw = 4, x_heads = 4, lk_A = 5308416 / 15074041, lk_B = 9765625 / 15074041\<rparr>,
      \<lparr>draw = 5, x_heads = 7, lk_A = 17915904 / 27681529, lk_B = 9765625 / 27681529\<rparr>]"

subsection \<open>The cells over IEEE binary64\<close>

text \<open>
  A finite double is the real number it denotes; \<open>0.0\<close> and \<open>-0.0\<close> are both \<open>0\<close>.
  \<^const>\<open>undefined\<close> plays no part: every operation below returns a double or an error.
\<close>

text \<open>Rounding a real to the nearest integer, a tie going to the even one.\<close>

definition rhe :: "real \<Rightarrow> int" where
  "rhe y =
     (let f = \<lfloor>y\<rfloor>; d = y - of_int f in
      if d < 1 / 2 then f else if 1 / 2 < d then f + 1 else if even f then f else f + 1)"

text \<open>
  The binary exponent that fixes the spacing of the doubles around \<open>x\<close>: the largest
  \<open>e \<le> 1023\<close> with \<open>2\<^sup>e \<le> \<bar>x\<bar>\<close>, and \<open>-1022\<close> for everything below \<open>2\<^sup>-\<^sup>1\<^sup>0\<^sup>2\<^sup>1\<close> (the lowest
  normal binade and the subnormal range share one spacing).
\<close>

primrec expo_search :: "nat \<Rightarrow> real \<Rightarrow> int" where
  "expo_search 0 x = - 1022"
| "expo_search (Suc k) x =
     (if 2 powi (int k - 1021) \<le> x then int k - 1021 else expo_search k x)"

definition expo :: "real \<Rightarrow> int" where
  "expo x = expo_search 2045 \<bar>x\<bar>"

text \<open>The spacing of the doubles around \<open>x\<close>: 53 significant bits, at least \<open>2\<^sup>-\<^sup>1\<^sup>0\<^sup>7\<^sup>4\<close>.\<close>

definition ulp :: "real \<Rightarrow> real" where
  "ulp x = 2 powi (expo x - 52)"

text \<open>
  The double nearest to \<open>x\<close>, ties to even, before the check for overflow. Values below
  half the least subnormal \<open>2\<^sup>-\<^sup>1\<^sup>0\<^sup>7\<^sup>4\<close> round to zero.
\<close>

definition fl :: "real \<Rightarrow> real" where
  "fl x = of_int (rhe (x / ulp x)) * ulp x"

datatype double = Finite real | PlusInf | MinusInf | NaN

text \<open>The result of an arithmetic operation with exact value \<open>x\<close>.\<close>

definition rnd :: "real \<Rightarrow> double" where
  "rnd x =
     (if 2 powi 1024 \<le> fl x then PlusInf
      else if fl x \<le> - (2 powi 1024) then MinusInf
      else Finite (fl x))"

text \<open>
  A Python int as a float operand: the nearest double, or \<^verbatim>\<open>OverflowError\<close> when it is
  out of range.
\<close>

definition int_to_double :: "int \<Rightarrow> error + real" where
  "int_to_double x = (case rnd (of_int x) of Finite w \<Rightarrow> Inr w | _ \<Rightarrow> Inl OverflowError)"

text \<open>
  \<^verbatim>\<open>b ** e\<close> for a finite float base and an int exponent: the exponent is converted to a
  float, a zero base with a negative exponent raises \<^verbatim>\<open>ZeroDivisionError\<close>, a result out
  of range raises \<^verbatim>\<open>OverflowError\<close>, and a result too small is returned as zero or as a
  subnormal, without an error. The C library's \<^verbatim>\<open>pow\<close>, which computes the power, is
  taken to round correctly and to report no range error for a result that is not zero.
\<close>

definition d_float_pow :: "real \<Rightarrow> int \<Rightarrow> error + real" where
  "d_float_pow b e =
     (case int_to_double e of
        Inl err \<Rightarrow> Inl err
      | Inr w \<Rightarrow>
          if b = 0 \<and> w < 0 then Inl ZeroDivisionError
          else (case rnd (b powi \<lfloor>w\<rfloor>) of
                  Finite r \<Rightarrow> Inr r
                | _ \<Rightarrow> Inl OverflowError))"

text \<open>
  Cell 2 on a finite double \<open>theta\<close>: \<^verbatim>\<open>theta**x\<close>, then \<^verbatim>\<open>1-theta\<close> (which is finite),
  then \<^verbatim>\<open>(1-theta)**(n-x)\<close>, then the product, which may overflow to an infinity.
\<close>

definition d_compute_joint_pr :: "int \<Rightarrow> real \<Rightarrow> int \<Rightarrow> error + double" where
  "d_compute_joint_pr x theta n =
     (case d_float_pow theta x of
        Inl e \<Rightarrow> Inl e
      | Inr p \<Rightarrow>
          (case d_float_pow (fl (1 - theta)) (n - x) of
             Inl e \<Rightarrow> Inl e
           | Inr q \<Rightarrow> Inr (rnd (p * q))))"

text \<open>\<^verbatim>\<open>lk_A + lk_B\<close>.\<close>

fun d_add :: "double \<Rightarrow> double \<Rightarrow> double" where
  "d_add (Finite a) (Finite b) = rnd (a + b)"
| "d_add NaN _ = NaN"
| "d_add _ NaN = NaN"
| "d_add PlusInf MinusInf = NaN"
| "d_add MinusInf PlusInf = NaN"
| "d_add PlusInf _ = PlusInf"
| "d_add _ PlusInf = PlusInf"
| "d_add MinusInf _ = MinusInf"
| "d_add _ MinusInf = MinusInf"

text \<open>\<^verbatim>\<open>a / t\<close> for a divisor that is not zero (Python raises on a zero divisor first).\<close>

fun d_div :: "double \<Rightarrow> double \<Rightarrow> double" where
  "d_div (Finite a) (Finite b) = rnd (a / b)"
| "d_div NaN _ = NaN"
| "d_div _ NaN = NaN"
| "d_div (Finite a) _ = Finite 0"
| "d_div PlusInf (Finite b) = (if 0 < b then PlusInf else MinusInf)"
| "d_div MinusInf (Finite b) = (if 0 < b then MinusInf else PlusInf)"
| "d_div _ _ = NaN"

text \<open>
  \<^verbatim>\<open>round(x, d)\<close> of Python 2.7 on a float: the decimal rounding \<^const>\<open>py_round\<close> of the
  exact value of the double, converted back to the nearest double; an infinity or a NaN
  is returned as it is.
\<close>

fun d_round :: "double \<Rightarrow> nat \<Rightarrow> error + double" where
  "d_round (Finite x) d =
     (case rnd (py_round x d) of Finite y \<Rightarrow> Inr (Finite y) | _ \<Rightarrow> Inl OverflowError)"
| "d_round v d = Inr v"

record drow =
  d_draw :: double
  d_x_heads :: double
  d_lk_A :: double
  d_lk_B :: double

definition d_np_zeros :: "nat \<Rightarrow> drow list" where
  "d_np_zeros m =
     replicate m \<lparr>d_draw = Finite 0, d_x_heads = Finite 0, d_lk_A = Finite 0, d_lk_B = Finite 0\<rparr>"

text \<open>
  The loop body of cell 3, in its order: the two likelihoods, \<open>t\<close>, the write of
  \<^verbatim>\<open>i+1\<close> (\<^verbatim>\<open>IndexError\<close> past the last row), the write of \<^verbatim>\<open>heads\<close> as a float, the
  division \<^verbatim>\<open>lk_A/t\<close> (\<^verbatim>\<open>ZeroDivisionError\<close> when \<open>t\<close> is \<open>0.0\<close>) with its \<^verbatim>\<open>round\<close>, and
  the same for \<^verbatim>\<open>lk_B/t\<close>.
\<close>

definition d_e_row :: "nat \<Rightarrow> int \<Rightarrow> real \<Rightarrow> real \<Rightarrow> nat \<Rightarrow> error + drow" where
  "d_e_row i heads theta_A theta_B nrows =
     (case d_compute_joint_pr heads theta_A 10 of
        Inl e \<Rightarrow> Inl e
      | Inr lkA \<Rightarrow>
          (case d_compute_joint_pr heads theta_B 10 of
             Inl e \<Rightarrow> Inl e
           | Inr lkB \<Rightarrow>
               (let t = d_add lkA lkB in
                if nrows \<le> i then Inl IndexError
                else
                  (case int_to_double heads of
                     Inl e \<Rightarrow> Inl e
                   | Inr h \<Rightarrow>
                       if t = Finite 0 then Inl ZeroDivisionError
                       else
                         (case d_round (d_div lkA t) 3 of
                            Inl e \<Rightarrow> Inl e
                          | Inr rA \<Rightarrow>
                              (case d_round (d_div lkB t) 3 of
                                 Inl e \<Rightarrow> Inl e
                               | Inr rB \<Rightarrow>
                                   Inr \<lparr>d_draw = rnd (real (i + 1)), d_x_heads = Finite h,
                                        d_lk_A = rA, d_lk_B = rB\<rparr>))))))"

text \<open>The loop and the cell, as for the exact reading.\<close>

fun d_e_loop :: "nat \<Rightarrow> int list \<Rightarrow> real \<Rightarrow> real \<Rightarrow> drow list \<Rightarrow> error + drow list" where
  "d_e_loop i [] theta_A theta_B jps = Inr jps"
| "d_e_loop i (heads # rest) theta_A theta_B jps =
     (case d_e_row i heads theta_A theta_B (length jps) of
        Inl e \<Rightarrow> Inl e
      | Inr r \<Rightarrow> d_e_loop (i + 1) rest theta_A theta_B (jps[i := r]))"

definition d_e_step :: "int list \<Rightarrow> real \<Rightarrow> real \<Rightarrow> error + drow list" where
  "d_e_step data theta_A theta_B = d_e_loop 0 data theta_A theta_B (d_np_zeros 5)"

section \<open>Properties\<close>

subsection \<open>Evaluation lemmas\<close>

lemmas e_row_eval =
  e_row_def compute_joint_pr_def float_pow_def py_round_def Let_def power_divide

lemma np_zeros_5:
  "np_zeros 5 = [z, z, z, z, z]" if "z = \<lparr>draw = 0, x_heads = 0, lk_A = 0, lk_B = 0\<rparr>"
  using that by (simp add: np_zeros_def numeral_eq_Suc)

lemma notebook_row_0:
  "i < n \<Longrightarrow> e_row i 5 (3 / 5) (1 / 2) n =
     Inr \<lparr>draw = real (i + 1), x_heads = 5, lk_A = 449 / 1000, lk_B = 551 / 1000\<rparr>"
  by (simp add: e_row_eval)

lemma notebook_row_1:
  "i < n \<Longrightarrow> e_row i 9 (3 / 5) (1 / 2) n =
     Inr \<lparr>draw = real (i + 1), x_heads = 9, lk_A = 805 / 1000, lk_B = 195 / 1000\<rparr>"
  by (simp add: e_row_eval)

lemma notebook_row_2:
  "i < n \<Longrightarrow> e_row i 8 (3 / 5) (1 / 2) n =
     Inr \<lparr>draw = real (i + 1), x_heads = 8, lk_A = 733 / 1000, lk_B = 267 / 1000\<rparr>"
  by (simp add: e_row_eval)

lemma notebook_row_3:
  "i < n \<Longrightarrow> e_row i 4 (3 / 5) (1 / 2) n =
     Inr \<lparr>draw = real (i + 1), x_heads = 4, lk_A = 352 / 1000, lk_B = 648 / 1000\<rparr>"
  by (simp add: e_row_eval)

lemma notebook_row_4:
  "i < n \<Longrightarrow> e_row i 7 (3 / 5) (1 / 2) n =
     Inr \<lparr>draw = real (i + 1), x_heads = 7, lk_A = 647 / 1000, lk_B = 353 / 1000\<rparr>"
  by (simp add: e_row_eval)

lemma e_step_notebook: "e_step notebook_data (6 / 10) (5 / 10) = Inr table_1"
  unfolding e_step_def notebook_data_def np_zeros_5 [OF refl]
  apply (simp add: notebook_row_0 notebook_row_1 notebook_row_2 notebook_row_3 notebook_row_4)
  apply (simp add: table_1_def numeral_eq_Suc)
  done

lemma m_step_table_1: "m_step table_1 = Inr (21291 / 29722, 11709 / 20278)"
  by (simp add: m_step_def expected_sums_def expected_row_def table_1_def Let_def)

subsection \<open>The loop of the E step, row by row\<close>

lemma e_row_Inr_iff:
  "e_row i heads theta_A theta_B nrows = Inr r \<longleftrightarrow>
     (\<exists>a b. compute_joint_pr heads theta_A 10 = Inr a \<and> compute_joint_pr heads theta_B 10 = Inr b
        \<and> i < nrows \<and> a + b \<noteq> 0
        \<and> r = \<lparr>draw = real (i + 1), x_heads = of_int heads,
                 lk_A = py_round (a / (a + b)) 3, lk_B = py_round (b / (a + b)) 3\<rparr>)"
  by (auto simp add: e_row_def Let_def split: sum.splits)

lemma e_loop_length:
  "e_loop i hs theta_A theta_B jps = Inr df \<Longrightarrow> length df = length jps"
  by (induction hs arbitrary: i jps) (auto split: sum.splits)

lemma e_loop_nth_other:
  "e_loop i hs theta_A theta_B jps = Inr df \<Longrightarrow> j < i \<or> i + length hs \<le> j \<Longrightarrow>
     df ! j = jps ! j"
  by (induction hs arbitrary: i jps) (auto split: sum.splits)

lemma e_loop_nth_row:
  "e_loop i hs theta_A theta_B jps = Inr df \<Longrightarrow> k < length hs \<Longrightarrow>
     e_row (i + k) (hs ! k) theta_A theta_B (length jps) = Inr (df ! (i + k))"
proof (induction hs arbitrary: i jps k)
  case Nil
  then show ?case by simp
next
  case (Cons h hs)
  from Cons.prems(1) obtain r where r: "e_row i h theta_A theta_B (length jps) = Inr r"
    and rest: "e_loop (i + 1) hs theta_A theta_B (jps[i := r]) = Inr df"
    by (auto split: sum.splits)
  show ?case
  proof (cases k)
    case 0
    from r have "i < length jps"
      by (auto simp add: e_row_Inr_iff)
    moreover have "df ! i = (jps[i := r]) ! i"
      using rest by (rule e_loop_nth_other) simp
    ultimately show ?thesis
      using r 0 by simp
  next
    case (Suc k')
    with Cons.prems(2) have "k' < length hs"
      by simp
    from Cons.IH [OF rest this] show ?thesis
      using Suc by simp
  qed
qed

lemma e_loop_succeeds:
  "(\<And>k. k < length hs \<Longrightarrow> \<exists>r. e_row (i + k) (hs ! k) theta_A theta_B (length jps) = Inr r) \<Longrightarrow>
     \<exists>df. e_loop i hs theta_A theta_B jps = Inr df"
proof (induction hs arbitrary: i jps)
  case Nil
  then show ?case by simp
next
  case (Cons h hs)
  from Cons.prems [of 0] obtain r where r: "e_row i h theta_A theta_B (length jps) = Inr r"
    by auto
  have "\<exists>df. e_loop (i + 1) hs theta_A theta_B (jps[i := r]) = Inr df"
  proof (rule Cons.IH)
    fix k assume "k < length hs"
    then show "\<exists>r'. e_row (i + 1 + k) (hs ! k) theta_A theta_B (length (jps[i := r])) = Inr r'"
      using Cons.prems [of "Suc k"] by simp
  qed
  with r show ?case by simp
qed

subsection \<open>The likelihood\<close>



subsection \<open>The notebook's numbers\<close>

text \<open>
  C3. On the data \<open>[5, 9, 8, 4, 7]\<close> with \<open>\<theta>\<^sub>A = 0.6\<close> and \<open>\<theta>\<^sub>B = 0.5\<close> the E step
  fills the table with the class-A responsibilities \<open>0.449, 0.805, 0.733, 0.352, 0.647\<close>
  (each rounded to three decimals), and every class-B responsibility is one minus the
  class-A responsibility of its row.
\<close>

theorem e_step_notebook_table:
  "e_step notebook_data (6 / 10) (5 / 10) = Inr table_1
   \<and> map lk_A table_1 = [449 / 1000, 805 / 1000, 733 / 1000, 352 / 1000, 647 / 1000]
   \<and> map lk_B table_1 = map (\<lambda>r. 1 - lk_A r) table_1"
proof (intro conjI)
  show "e_step notebook_data (6 / 10) (5 / 10) = Inr table_1"
    by (rule e_step_notebook)
  show "map lk_A table_1 = [449 / 1000, 805 / 1000, 733 / 1000, 352 / 1000, 647 / 1000]"
    by (simp add: table_1_def)
  show "map lk_B table_1 = map (\<lambda>r. 1 - lk_A r) table_1"
    by (simp add: table_1_def)
qed

text \<open>
  C2. From Table 1 (class-A responsibilities \<open>0.449, 0.805, 0.733, 0.352, 0.647\<close> and
  their complements, on the draws \<open>5, 9, 8, 4, 7\<close>) the M step gives
  \<open>\<theta>\<^sub>A = 21291/29722\<close> and \<open>\<theta>\<^sub>B = 11709/20278\<close>, which are \<open>0.716\<close> and \<open>0.577\<close> to
  three decimals.
\<close>

theorem m_step_notebook_values:
  "m_step table_1 = Inr (21291 / 29722, 11709 / 20278)
   \<and> py_round (21291 / 29722) 3 = 716 / 1000
   \<and> py_round (11709 / 20278) 3 = 577 / 1000"
proof (intro conjI)
  show "m_step table_1 = Inr (21291 / 29722, 11709 / 20278)"
    by (rule m_step_table_1)
  show "py_round (21291 / 29722) 3 = 716 / 1000"
    by (simp add: py_round_def)
  show "py_round (11709 / 20278) 3 = 577 / 1000"
    by (simp add: py_round_def)
qed

subsection \<open>The M step against the specification's formula\<close>

text \<open>
  C1. The specification gives the new parameter of a class as
  \<open>\<Sum>(resp \<times> heads) / \<Sum>(resp \<times> n)\<close> with that class's responsibility in both sums. The
  notebook's column \<^verbatim>\<open>E[#tails z==A]\<close> is computed with \<open>1 - lk_A\<close>, the other class's
  responsibility, so the denominator is not \<open>\<Sum>(lk_A \<times> 10)\<close>: on Table 1 the code yields
  \<open>21291/29722\<close> and \<open>11709/20278\<close>, the formula \<open>21291/29860\<close> and \<open>11709/20140\<close>.
\<close>

theorem m_step_not_weighted_fraction:
  "m_step table_1 = Inr (21291 / 29722, 11709 / 20278)
   \<and> spec_m_step table_1 10 = (21291 / 29860, 11709 / 20140)
   \<and> m_step table_1 \<noteq> Inr (spec_m_step table_1 10)"
proof -
  have "spec_m_step table_1 10 = (21291 / 29860, 11709 / 20140)"
    by (simp add: spec_m_step_def table_1_def)
  then show ?thesis
    by (simp add: m_step_table_1)
qed

subsection \<open>The range of the M step\<close>

lemma unit_fraction:
  fixes h t :: real
  assumes "0 \<le> h" and "0 \<le> t" and "h + t \<noteq> 0"
  shows "0 \<le> h / (h + t) \<and> h / (h + t) \<le> 1"
proof -
  from assms have "0 < h + t" by linarith
  with assms show ?thesis by (simp add: divide_le_eq)
qed

text \<open>
  C6. For a table whose draws lie in \<open>[0, 10]\<close> and whose responsibilities lie in \<open>[0, 1]\<close>,
  both parameters the M step produces lie in \<open>[0, 1]\<close>.
\<close>

theorem m_step_unit_interval:
  assumes "\<forall>r\<in>set df. 0 \<le> x_heads r \<and> x_heads r \<le> 10 \<and> 0 \<le> lk_A r \<and> lk_A r \<le> 1
             \<and> 0 \<le> lk_B r \<and> lk_B r \<le> 1"
    and "m_step df = Inr (new_theta_A, new_theta_B)"
  shows "0 \<le> new_theta_A \<and> new_theta_A \<le> 1 \<and> 0 \<le> new_theta_B \<and> new_theta_B \<le> 1"
proof -
  define s where "s = expected_sums df"
  have ha: "0 \<le> E_heads_A s"
    unfolding s_def expected_sums_def using assms(1)
    by (auto intro!: sum_list_nonneg simp add: expected_row_def)
  have ta: "0 \<le> E_tails_A s"
    unfolding s_def expected_sums_def using assms(1)
    by (auto intro!: sum_list_nonneg simp add: expected_row_def)
  have hb: "0 \<le> E_heads_B s"
    unfolding s_def expected_sums_def using assms(1)
    by (auto intro!: sum_list_nonneg simp add: expected_row_def)
  have tb: "0 \<le> E_tails_B s"
    unfolding s_def expected_sums_def using assms(1)
    by (auto intro!: sum_list_nonneg simp add: expected_row_def)
  from assms(2) have da: "E_heads_A s + E_tails_A s \<noteq> 0"
    and db: "E_heads_B s + E_tails_B s \<noteq> 0"
    and va: "new_theta_A = E_heads_A s / (E_heads_A s + E_tails_A s)"
    and vb: "new_theta_B = E_heads_B s / (E_heads_B s + E_tails_B s)"
    by (auto simp add: m_step_def Let_def s_def split: if_splits)
  from unit_fraction [OF ha ta da] unit_fraction [OF hb tb db] va vb show ?thesis
    by simp
qed

theorem m_step_unit_interval_witness:
  "list_all (\<lambda>r. 0 \<le> x_heads r \<and> x_heads r \<le> 10 \<and> 0 \<le> lk_A r \<and> lk_A r \<le> 1
             \<and> 0 \<le> lk_B r \<and> lk_B r \<le> 1) table_1
   \<and> m_step table_1 = Inr (21291 / 29722, 11709 / 20278)
   \<and> (0::real) \<le> 21291 / 29722 \<and> (21291 / 29722 :: real) \<le> 1
   \<and> (0::real) \<le> 11709 / 20278 \<and> (11709 / 20278 :: real) \<le> 1"
proof -
  have h: "\<forall>r\<in>set table_1. 0 \<le> x_heads r \<and> x_heads r \<le> 10 \<and> 0 \<le> lk_A r \<and> lk_A r \<le> 1
             \<and> 0 \<le> lk_B r \<and> lk_B r \<le> 1"
    by (simp add: table_1_def)
  from m_step_unit_interval [OF h m_step_table_1] h m_step_table_1 show ?thesis
    by (simp add: list_all_iff)
qed

subsection \<open>Rounded responsibilities in the M step\<close>

lemma e_row_rounds_unrounded:
  "e_row i heads theta_A theta_B nrows =
     map_sum id round_row (e_row_unrounded i heads theta_A theta_B nrows)"
  by (simp add: e_row_def e_row_unrounded_def round_row_def Let_def split: sum.splits)

lemmas e_row_unrounded_eval =
  e_row_unrounded_def compute_joint_pr_def float_pow_def Let_def power_divide

lemma unrounded_row_0:
  "i < n \<Longrightarrow> e_row_unrounded i 5 (3 / 5) (1 / 2) n =
     Inr \<lparr>draw = real (i + 1), x_heads = 5, lk_A = 7962624 / 17728249, lk_B = 9765625 / 17728249\<rparr>"
  by (simp add: e_row_unrounded_eval)

lemma unrounded_row_1:
  "i < n \<Longrightarrow> e_row_unrounded i 9 (3 / 5) (1 / 2) n =
     Inr \<lparr>draw = real (i + 1), x_heads = 9, lk_A = 40310784 / 50076409, lk_B = 9765625 / 50076409\<rparr>"
  by (simp add: e_row_unrounded_eval)

lemma unrounded_row_2:
  "i < n \<Longrightarrow> e_row_unrounded i 8 (3 / 5) (1 / 2) n =
     Inr \<lparr>draw = real (i + 1), x_heads = 8, lk_A = 26873856 / 36639481, lk_B = 9765625 / 36639481\<rparr>"
  by (simp add: e_row_unrounded_eval)

lemma unrounded_row_3:
  "i < n \<Longrightarrow> e_row_unrounded i 4 (3 / 5) (1 / 2) n =
     Inr \<lparr>draw = real (i + 1), x_heads = 4, lk_A = 5308416 / 15074041, lk_B = 9765625 / 15074041\<rparr>"
  by (simp add: e_row_unrounded_eval)

lemma unrounded_row_4:
  "i < n \<Longrightarrow> e_row_unrounded i 7 (3 / 5) (1 / 2) n =
     Inr \<lparr>draw = real (i + 1), x_heads = 7, lk_A = 17915904 / 27681529, lk_B = 9765625 / 27681529\<rparr>"
  by (simp add: e_row_unrounded_eval)

lemma e_step_unrounded_notebook:
  "e_step_unrounded notebook_data (6 / 10) (5 / 10) = Inr table_1_unrounded"
  unfolding e_step_unrounded_def notebook_data_def np_zeros_5 [OF refl]
  apply (simp add: unrounded_row_0 unrounded_row_1 unrounded_row_2 unrounded_row_3 unrounded_row_4)
  apply (simp add: table_1_unrounded_def numeral_eq_Suc)
  done

lemma expected_sums_table_1:
  "expected_sums table_1 =
     \<lparr>E_heads_A = 21291 / 1000, E_tails_A = 8431 / 1000,
      E_heads_B = 11709 / 1000, E_tails_B = 8569 / 1000\<rparr>"
  by (simp add: expected_sums_def expected_row_def table_1_def)

lemma m_step_table_1_unrounded:
  "m_step table_1_unrounded =
     Inr (289065564678389481768107936097171044352 / 403453420632330976954611363605774559977,
          52945148167518881875148839187919921875 / 91728157355357415456318663475312929491)"
  by (simp add: m_step_def expected_sums_def expected_row_def table_1_unrounded_def Let_def)

lemma table_1_rounds_unrounded: "table_1 = map round_row table_1_unrounded"
  by (simp add: table_1_def table_1_unrounded_def round_row_def py_round_def)

text \<open>
  C10. The row the E step stores is the row of unrounded quotients with both
  responsibilities rounded to three decimals, and the M step reads the stored table: on
  the notebook's run the column sums are the printed \<open>21.291, 8.431, 11.709, 8.569\<close> and the
  new parameters \<open>21291/29722\<close> and \<open>11709/20278\<close>, which are not the parameters the same
  M step gives on the unrounded responsibilities.
\<close>

theorem m_step_reads_rounded_responsibilities:
  "e_row i heads theta_A theta_B nrows =
     map_sum id round_row (e_row_unrounded i heads theta_A theta_B nrows)
   \<and> e_step notebook_data (6 / 10) (5 / 10) = Inr table_1
   \<and> e_step_unrounded notebook_data (6 / 10) (5 / 10) = Inr table_1_unrounded
   \<and> table_1 = map round_row table_1_unrounded
   \<and> expected_sums table_1 =
       \<lparr>E_heads_A = 21291 / 1000, E_tails_A = 8431 / 1000,
        E_heads_B = 11709 / 1000, E_tails_B = 8569 / 1000\<rparr>
   \<and> m_step table_1 = Inr (21291 / 29722, 11709 / 20278)
   \<and> m_step table_1_unrounded =
       Inr (289065564678389481768107936097171044352 / 403453420632330976954611363605774559977,
            52945148167518881875148839187919921875 / 91728157355357415456318663475312929491)
   \<and> m_step table_1 \<noteq> m_step table_1_unrounded"
proof -
  have "m_step table_1 \<noteq> m_step table_1_unrounded"
    unfolding m_step_table_1 m_step_table_1_unrounded by simp
  then show ?thesis
    using e_row_rounds_unrounded e_step_notebook e_step_unrounded_notebook
      table_1_rounds_unrounded expected_sums_table_1 m_step_table_1 m_step_table_1_unrounded
    by blast
qed

subsection \<open>Permuting the draws\<close>

lemma e_row_reindex:
  "e_row i heads theta_A theta_B nrows = Inr r \<Longrightarrow> i' < nrows \<Longrightarrow>
     e_row i' heads theta_A theta_B nrows = Inr (r\<lparr>draw := real (i' + 1)\<rparr>)"
  by (auto simp add: e_row_Inr_iff)

lemma sum_list_permuted_rows:
  fixes f :: "'a \<Rightarrow> real"
  assumes p: "bij_betw p {..<n} {..<n}"
    and len: "length xs = length ys" "n \<le> length ys"
    and low: "\<And>i. i < n \<Longrightarrow> f (xs ! i) = f (ys ! p i)"
    and high: "\<And>i. n \<le> i \<Longrightarrow> i < length ys \<Longrightarrow> f (xs ! i) = f (ys ! i)"
  shows "sum_list (map f xs) = sum_list (map f ys)"
proof -
  have split: "sum_list (map f zs) = (\<Sum>i<n. f (zs ! i)) + (\<Sum>i = n..<length zs. f (zs ! i))"
    if "n \<le> length zs" for zs :: "'a list"
  proof -
    have "sum_list (map f zs) = (\<Sum>i = 0..<length zs. f (zs ! i))"
      by (simp add: sum_list_sum_nth)
    also have "\<dots> = (\<Sum>i = 0..<n. f (zs ! i)) + (\<Sum>i = n..<length zs. f (zs ! i))"
      using that by (simp add: sum.atLeastLessThan_concat)
    finally show ?thesis
      by (simp add: lessThan_atLeast0)
  qed
  have "(\<Sum>i<n. f (xs ! i)) = (\<Sum>i<n. f (ys ! p i))"
    using low by simp
  also have "\<dots> = (\<Sum>i<n. f (ys ! i))"
    using p by (rule sum.reindex_bij_betw)
  finally have a: "(\<Sum>i<n. f (xs ! i)) = (\<Sum>i<n. f (ys ! i))" .
  have b: "(\<Sum>i = n..<length ys. f (xs ! i)) = (\<Sum>i = n..<length ys. f (ys ! i))"
    by (rule sum.cong) (simp_all add: high)
  have "sum_list (map f xs) = (\<Sum>i<n. f (xs ! i)) + (\<Sum>i = n..<length ys. f (xs ! i))"
    using split [of xs] len by simp
  also have "\<dots> = (\<Sum>i<n. f (ys ! i)) + (\<Sum>i = n..<length ys. f (ys ! i))"
    by (simp only: a b)
  also have "\<dots> = sum_list (map f ys)"
    using split [of ys] len by simp
  finally show ?thesis .
qed

text \<open>
  C9. Let \<open>p\<close> permute the positions of the draws and let the E step loop return the table
  \<open>df\<close> on \<open>data\<close>. Then on the permuted draws it returns a table \<open>df'\<close> too, whose row \<open>i\<close>
  carries the draw and the two responsibilities of row \<open>p i\<close> of \<open>df\<close>; the four summed
  expected counts are the same for both tables, and so is the outcome of the M step.
  The notebook's E step is the loop on the table \<^term>\<open>np_zeros 5\<close>.
\<close>

theorem e_loop_permutation:
  assumes p: "bij_betw p {..<length data} {..<length data}"
    and df: "e_loop 0 data theta_A theta_B jps = Inr df"
  shows "\<exists>df'. e_loop 0 (map (\<lambda>i. data ! p i) [0..<length data]) theta_A theta_B jps = Inr df'
           \<and> (\<forall>i<length data. x_heads (df' ! i) = x_heads (df ! p i)
                 \<and> lk_A (df' ! i) = lk_A (df ! p i) \<and> lk_B (df' ! i) = lk_B (df ! p i))
           \<and> expected_sums df' = expected_sums df
           \<and> m_step df' = m_step df"
proof -
  define n where "n = length data"
  define data' where "data' = map (\<lambda>i. data ! p i) [0..<n]"
  have len': "length data' = n"
    by (simp add: data'_def)
  have pn: "p k < n" if "k < n" for k
    using p that unfolding n_def by (auto simp add: bij_betw_def)
  have nth': "data' ! k = data ! p k" if "k < n" for k
    using that by (simp add: data'_def)
  have old: "e_row k (data ! k) theta_A theta_B (length jps) = Inr (df ! k)" if "k < n" for k
    using e_loop_nth_row [OF df, of k] that by (simp add: n_def)
  have room: "k < length jps" if "k < n" for k
    using old [OF that] by (auto simp add: e_row_Inr_iff)
  have new: "e_row k (data' ! k) theta_A theta_B (length jps) =
      Inr ((df ! p k)\<lparr>draw := real (k + 1)\<rparr>)" if "k < n" for k
    using e_row_reindex [OF old [OF pn [OF that]] room [OF that]] that by (simp add: nth')
  have "\<exists>df'. e_loop 0 data' theta_A theta_B jps = Inr df'"
  proof (rule e_loop_succeeds)
    fix k assume "k < length data'"
    with new [of k] show "\<exists>r. e_row (0 + k) (data' ! k) theta_A theta_B (length jps) = Inr r"
      by (simp add: len')
  qed
  then obtain df' where df': "e_loop 0 data' theta_A theta_B jps = Inr df'"
    by blast
  have row: "df' ! k = (df ! p k)\<lparr>draw := real (k + 1)\<rparr>" if "k < n" for k
    using e_loop_nth_row [OF df', of k] new [OF that] that by (simp add: len')
  have rest: "df' ! j = df ! j" if "n \<le> j" for j
    using e_loop_nth_other [OF df', of j] e_loop_nth_other [OF df, of j] that
    by (simp add: len' n_def)
  have length: "length df' = length df"
    using e_loop_length [OF df'] e_loop_length [OF df] by simp
  have n_le: "n \<le> length df"
  proof (cases n)
    case 0
    then show ?thesis by simp
  next
    case (Suc m)
    then have "m < length jps"
      using room [of m] by simp
    with Suc e_loop_length [OF df] show ?thesis by simp
  qed
  have sums: "sum_list (map (\<lambda>r. g (expected_row r)) df') = sum_list (map (\<lambda>r. g (expected_row r)) df)"
    for g :: "expected \<Rightarrow> real"
  proof (rule sum_list_permuted_rows [where n = n and p = p])
    show "bij_betw p {..<n} {..<n}"
      using p by (simp add: n_def)
    show "length df' = length df" by (rule length)
    show "n \<le> length df" by (rule n_le)
    show "g (expected_row (df' ! i)) = g (expected_row (df ! p i))" if "i < n" for i
      using row [OF that] by (simp add: expected_row_def)
    show "g (expected_row (df' ! i)) = g (expected_row (df ! i))" if "n \<le> i" for i
      using rest [OF that] by simp
  qed
  have es: "expected_sums df' = expected_sums df"
    by (simp add: expected_sums_def sums)
  then have ms: "m_step df' = m_step df"
    by (simp add: m_step_def)
  have "x_heads (df' ! i) = x_heads (df ! p i)
      \<and> lk_A (df' ! i) = lk_A (df ! p i) \<and> lk_B (df' ! i) = lk_B (df ! p i)" if "i < n" for i
    using row [OF that] by simp
  with df' es ms show ?thesis
    unfolding data'_def n_def by blast
qed

theorem e_loop_permutation_witness:
  "bij_betw (\<lambda>i. 4 - i) {..<length notebook_data} {..<length notebook_data}
   \<and> e_step notebook_data (6 / 10) (5 / 10) = Inr table_1
   \<and> (\<exists>df'. e_step [7, 4, 8, 9, 5] (6 / 10) (5 / 10) = Inr df'
         \<and> x_heads (df' ! 0) = x_heads (table_1 ! 4)
         \<and> lk_A (df' ! 0) = lk_A (table_1 ! 4) \<and> lk_B (df' ! 0) = lk_B (table_1 ! 4)
         \<and> expected_sums df' = expected_sums table_1
         \<and> m_step df' = m_step table_1)"
proof -
  have p: "bij_betw (\<lambda>i. 4 - i) {..<length notebook_data} {..<length notebook_data}"
    by (rule bij_betw_byWitness [where f' = "\<lambda>i. 4 - i"]) (auto simp add: notebook_data_def)
  have l: "e_loop 0 notebook_data (6 / 10) (5 / 10) (np_zeros 5) = Inr table_1"
    using e_step_notebook by (simp add: e_step_def)
  have d: "map (\<lambda>i. notebook_data ! (4 - i)) [0..<length notebook_data] = [7, 4, 8, 9, 5]"
    by (simp add: notebook_data_def upt_conv_Cons numeral_eq_Suc)
  from e_loop_permutation [OF p l] obtain df'
    where "e_step [7, 4, 8, 9, 5] (6 / 10) (5 / 10) = Inr df'"
      and "\<forall>i<length notebook_data. x_heads (df' ! i) = x_heads (table_1 ! (4 - i))
                 \<and> lk_A (df' ! i) = lk_A (table_1 ! (4 - i)) \<and> lk_B (df' ! i) = lk_B (table_1 ! (4 - i))"
      and "expected_sums df' = expected_sums table_1"
      and "m_step df' = m_step table_1"
    unfolding d e_step_def by blast
  moreover from this(2) have "x_heads (df' ! 0) = x_heads (table_1 ! 4)
         \<and> lk_A (df' ! 0) = lk_A (table_1 ! 4) \<and> lk_B (df' ! 0) = lk_B (table_1 ! 4)"
    by (simp add: notebook_data_def)
  ultimately show ?thesis
    using p e_step_notebook by blast
qed

subsection \<open>Binary64 rounding\<close>

lemma two_powi_mono: "a \<le> b \<Longrightarrow> (2::real) powi a \<le> 2 powi b"
  by (rule power_int_increasing) simp_all

lemma two_powi_less_D: "(2::real) powi a < 2 powi b \<Longrightarrow> a < b"
  using two_powi_mono [of b a] by (cases "a < b") auto

lemma two_powi_le_D: "(2::real) powi a \<le> 2 powi b \<Longrightarrow> a \<le> b"
  using power_int_strict_increasing [of b a "2::real"] by (cases "a \<le> b") auto

lemma two_powi_pos: "0 < (2::real) powi a"
  by simp

lemma two_powi_add: "(2::real) powi (a + b) = 2 powi a * 2 powi b"
  by (rule power_int_add) simp

lemma two_powi_diff: "(2::real) powi (a - b) = 2 powi a / 2 powi b"
  by (rule power_int_diff) simp

lemma two_powi_nat: "0 \<le> a \<Longrightarrow> (2::real) powi a = of_int (2 ^ nat a)"
  by (simp add: power_int_nonneg_exp)

paragraph \<open>Rounding to an integer\<close>

lemma rhe_error: "\<bar>of_int (rhe y) - y\<bar> \<le> 1 / 2"
  unfolding rhe_def Let_def by (auto; linarith)

lemma rhe_of_int: "rhe (of_int n) = n"
  by (simp add: rhe_def)

lemma rhe_ge: "of_int n \<le> y \<Longrightarrow> n \<le> rhe y"
  unfolding rhe_def Let_def by (auto; linarith)

lemma rhe_le: "y \<le> of_int n \<Longrightarrow> rhe y \<le> n"
proof (cases "y = of_int n")
  case True
  then show ?thesis by (simp add: rhe_of_int)
next
  case False
  assume "y \<le> of_int n"
  with False have "y < of_int n" by simp
  then have "\<lfloor>y\<rfloor> < n" by linarith
  then show ?thesis
    unfolding rhe_def Let_def by auto
qed

lemma rhe_zero: "\<bar>y\<bar> < 1 / 2 \<Longrightarrow> rhe y = 0"
proof -
  assume a: "\<bar>y\<bar> < 1 / 2"
  have "\<bar>of_int (rhe y) - y\<bar> \<le> 1 / 2" by (rule rhe_error)
  with a have "\<bar>real_of_int (rhe y)\<bar> < 1" by linarith
  then show ?thesis by linarith
qed

paragraph \<open>The exponent\<close>

lemma expo_search_bounds: "- 1022 \<le> expo_search k x \<and> expo_search k x \<le> int k - 1022"
  by (induction k) auto

lemma expo_search_le: "expo_search k x = - 1022 \<or> 2 powi (expo_search k x) \<le> x"
  by (induction k) auto

lemma expo_search_less: "x < 2 powi (int k - 1021) \<Longrightarrow> x < 2 powi (expo_search k x + 1)"
proof (induction k)
  case 0
  then show ?case by simp
next
  case (Suc k)
  show ?case
  proof (cases "2 powi (int k - 1021) \<le> x")
    case True
    have "int (Suc k) - 1021 = int k - 1021 + 1" by simp
    with Suc.prems True show ?thesis by simp
  next
    case False
    then have "x < 2 powi (int k - 1021)" by simp
    from Suc.IH [OF this] False show ?thesis by simp
  qed
qed

lemma expo_bounds: "- 1022 \<le> expo x" "expo x \<le> 1023"
  using expo_search_bounds [of 2045 "\<bar>x\<bar>"] by (simp_all add: expo_def)

lemma expo_le: "expo x = - 1022 \<or> 2 powi (expo x) \<le> \<bar>x\<bar>"
  using expo_search_le [of 2045 "\<bar>x\<bar>"] by (simp add: expo_def)

lemma expo_less: "\<bar>x\<bar> < 2 powi 1024 \<Longrightarrow> \<bar>x\<bar> < 2 powi (expo x + 1)"
  using expo_search_less [of "\<bar>x\<bar>" 2045] by (simp add: expo_def)

lemma expo_eq:
  assumes "2 powi e \<le> \<bar>x\<bar>" and "\<bar>x\<bar> < 2 powi (e + 1)" and "- 1022 \<le> e" and "e \<le> 1023"
  shows "expo x = e"
proof -
  from assms(2,4) have "\<bar>x\<bar> < 2 powi 1024"
    using two_powi_mono [of "e + 1" 1024] by simp
  from expo_less [OF this] assms(1) have "(2::real) powi e < 2 powi (expo x + 1)"
    by linarith
  then have 1: "e \<le> expo x"
    using two_powi_less_D by fastforce
  have 2: "expo x \<le> e"
  proof (cases "expo x = - 1022")
    case True
    with assms(3) show ?thesis by simp
  next
    case False
    with expo_le [of x] assms(2) have "(2::real) powi (expo x) < 2 powi (e + 1)"
      by linarith
    then show ?thesis
      using two_powi_less_D by fastforce
  qed
  from 1 2 show ?thesis by simp
qed

lemma expo_subnormal: "\<bar>x\<bar> < 2 powi (- 1021) \<Longrightarrow> expo x = - 1022"
proof (rule ccontr)
  assume a: "\<bar>x\<bar> < 2 powi (- 1021)" and n: "expo x \<noteq> - 1022"
  with expo_le [of x] have "(2::real) powi (expo x) < 2 powi (- 1021)"
    by linarith
  then have "expo x < - 1021" by (rule two_powi_less_D)
  with n expo_bounds(1) [of x] show False by simp
qed

lemma ulp_pos: "0 < ulp x"
  by (simp add: ulp_def)


paragraph \<open>Rounding to a double\<close>

lemma fl_zero: "fl 0 = 0"
  by (simp add: fl_def rhe_def)

lemma fl_error: "\<bar>fl x - x\<bar> \<le> ulp x / 2"
proof -
  have "\<bar>of_int (rhe (x / ulp x)) - x / ulp x\<bar> \<le> 1 / 2"
    by (rule rhe_error)
  then have "\<bar>of_int (rhe (x / ulp x)) - x / ulp x\<bar> * ulp x \<le> 1 / 2 * ulp x"
    using ulp_pos [of x] by (simp only: mult_le_cancel_right_pos)
  moreover have "\<bar>of_int (rhe (x / ulp x)) - x / ulp x\<bar> * ulp x = \<bar>fl x - x\<bar>"
    using ulp_pos [of x] by (simp add: fl_def abs_mult [symmetric] field_simps del: abs_mult)
  ultimately show ?thesis by simp
qed

lemma fl_nonneg: "0 \<le> x \<Longrightarrow> 0 \<le> fl x"
proof -
  assume "0 \<le> x"
  then have "of_int 0 \<le> x / ulp x"
    using ulp_pos [of x] by simp
  then have "0 \<le> rhe (x / ulp x)" by (rule rhe_ge)
  then show ?thesis
    using ulp_pos [of x] by (simp add: fl_def)
qed

lemma fl_nonpos: "x \<le> 0 \<Longrightarrow> fl x \<le> 0"
proof -
  assume "x \<le> 0"
  then have "x / ulp x \<le> of_int 0"
    using ulp_pos [of x] by (simp add: divide_le_0_iff)
  then have "rhe (x / ulp x) \<le> 0" by (rule rhe_le)
  then show ?thesis
    using ulp_pos [of x] by (simp add: fl_def mult_le_0_iff)
qed

lemma expo_normal_le: "2 powi (- 1022) \<le> \<bar>x\<bar> \<Longrightarrow> 2 powi (expo x) \<le> \<bar>x\<bar>"
  using expo_le [of x] by auto

lemma two_powi_ratio_int:
  assumes "e - 52 \<le> k"
  shows "(2::real) powi k / 2 powi (e - 52) = of_int (2 ^ nat (k - (e - 52)))"
proof -
  have "(2::real) powi k / 2 powi (e - 52) = 2 powi (k - (e - 52))"
    by (simp only: two_powi_diff)
  also have "\<dots> = of_int (2 ^ nat (k - (e - 52)))"
    using assms by (intro two_powi_nat) simp
  finally show ?thesis .
qed

lemma fl_le_two_powi:
  assumes "x \<le> 2 powi k" and "- 1074 \<le> k"
  shows "fl x \<le> 2 powi k"
proof (cases "0 \<le> x")
  case False
  then have "fl x \<le> 0" by (intro fl_nonpos) simp
  also have "(0::real) \<le> 2 powi k" by simp
  finally show ?thesis .
next
  case True
  have ek: "expo x - 52 \<le> k"
  proof (cases "expo x = - 1022")
    case True
    with assms(2) show ?thesis by simp
  next
    case False
    with expo_le [of x] \<open>0 \<le> x\<close> assms(1) have "(2::real) powi (expo x) \<le> 2 powi k"
      by simp
    then have "expo x \<le> k" by (rule two_powi_le_D)
    then show ?thesis by simp
  qed
  define N :: int where "N = 2 ^ nat (k - (expo x - 52))"
  have r: "(2::real) powi k / ulp x = of_int N"
    unfolding ulp_def N_def using ek by (rule two_powi_ratio_int)
  have "x / ulp x \<le> 2 powi k / ulp x"
    using assms(1) ulp_pos [of x] by (simp add: divide_right_mono)
  then have "rhe (x / ulp x) \<le> N"
    unfolding r by (rule rhe_le)
  then have "of_int (rhe (x / ulp x)) * ulp x \<le> of_int N * ulp x"
    using ulp_pos [of x] by simp
  also have "of_int N * ulp x = 2 powi k"
    using r ulp_pos [of x] by (simp add: field_simps)
  finally show ?thesis by (simp add: fl_def)
qed

lemma fl_ge_two_powi:
  assumes "2 powi k \<le> x" and "- 1074 \<le> k"
  shows "2 powi k \<le> fl x"
proof -
  have xpos: "0 < x"
    using assms(1) two_powi_pos [of k] by linarith
  show ?thesis
  proof (cases "expo x - 52 \<le> k")
    case True
    define N :: int where "N = 2 ^ nat (k - (expo x - 52))"
    have r: "(2::real) powi k / ulp x = of_int N"
      unfolding ulp_def N_def using True by (rule two_powi_ratio_int)
    have "2 powi k / ulp x \<le> x / ulp x"
      using assms(1) ulp_pos [of x] by (simp add: divide_right_mono)
    then have "N \<le> rhe (x / ulp x)"
      unfolding r by (rule rhe_ge)
    then have "of_int N * ulp x \<le> of_int (rhe (x / ulp x)) * ulp x"
      using ulp_pos [of x] by simp
    moreover have "of_int N * ulp x = 2 powi k"
      using r ulp_pos [of x] by (simp add: field_simps)
    ultimately show ?thesis by (simp add: fl_def)
  next
    case False
    with assms(2) have ne: "expo x \<noteq> - 1022" and kl: "k \<le> expo x"
      by simp_all
    from ne expo_le [of x] xpos have le: "2 powi (expo x) \<le> x"
      by simp
    have r: "(2::real) powi (expo x) / ulp x = of_int (2 ^ nat (expo x - (expo x - 52)))"
      unfolding ulp_def by (rule two_powi_ratio_int) simp
    have "2 powi (expo x) / ulp x \<le> x / ulp x"
      using le ulp_pos [of x] by (simp add: divide_right_mono)
    then have "2 ^ nat (expo x - (expo x - 52)) \<le> rhe (x / ulp x)"
      unfolding r by (rule rhe_ge)
    then have "of_int (2 ^ nat (expo x - (expo x - 52))) * ulp x \<le> of_int (rhe (x / ulp x)) * ulp x"
      using ulp_pos [of x] by (simp only: mult_le_cancel_right_pos of_int_le_iff)
    moreover have "of_int (2 ^ nat (expo x - (expo x - 52))) * ulp x = 2 powi (expo x)"
      using r ulp_pos [of x] by (simp add: field_simps)
    ultimately have "2 powi (expo x) \<le> fl x" by (simp add: fl_def)
    moreover have "(2::real) powi k \<le> 2 powi (expo x)"
      using kl by (rule two_powi_mono)
    ultimately show ?thesis by linarith
  qed
qed

lemma fl_two_powi: "- 1074 \<le> k \<Longrightarrow> fl (2 powi k) = 2 powi k"
  using fl_le_two_powi [of "2 powi k" k] fl_ge_two_powi [of k "2 powi k"] by simp

lemma ulp_half: "ulp x / 2 = 2 powi (expo x - 53)"
proof -
  have "expo x - 53 = expo x - 52 - 1" by simp
  then have "(2::real) powi (expo x - 53) = 2 powi (expo x - 52) / 2 powi 1"
    by (simp only: two_powi_diff)
  then show ?thesis by (simp add: ulp_def)
qed

lemma fl_rel_error:
  assumes "2 powi (- 1022) \<le> \<bar>x\<bar>"
  shows "\<bar>fl x - x\<bar> \<le> 2 powi (- 53) * \<bar>x\<bar>"
proof -
  have "\<bar>fl x - x\<bar> \<le> ulp x / 2" by (rule fl_error)
  also have "ulp x / 2 = 2 powi (- 53) * 2 powi (expo x)"
    unfolding ulp_half using two_powi_add [of "- 53" "expo x"] by simp
  also have "\<dots> \<le> 2 powi (- 53) * \<bar>x\<bar>"
    using expo_normal_le [OF assms] by (simp only: mult_le_cancel_left_pos two_powi_pos)
  finally show ?thesis .
qed

lemma fl_abs_error:
  assumes "\<bar>x\<bar> < 2"
  shows "\<bar>fl x - x\<bar> \<le> 2 powi (- 53)"
proof -
  have "expo x \<le> 0"
  proof (cases "expo x = - 1022")
    case True
    then show ?thesis by simp
  next
    case False
    with expo_le [of x] assms have "(2::real) powi (expo x) < 2 powi 1"
      by simp
    then have "expo x < 1" by (rule two_powi_less_D)
    then show ?thesis by simp
  qed
  then have "(2::real) powi (expo x - 53) \<le> 2 powi (- 53)"
    by (intro two_powi_mono) simp
  with fl_error [of x] show ?thesis
    by (simp only: ulp_half)
qed

lemma fl_multiple: "\<exists>n::int. fl x = of_int n * 2 powi (- 1074)"
proof -
  have "- 1074 \<le> expo x - 52"
    using expo_bounds(1) [of x] by simp
  then have "(2::real) powi (expo x - 52) / 2 powi (- 1022 - 52)
      = of_int (2 ^ nat (expo x - 52 - (- 1022 - 52)))"
    by (intro two_powi_ratio_int) simp
  then have "ulp x = of_int (2 ^ nat (expo x - 52 - (- 1022 - 52))) * 2 powi (- 1074)"
    by (simp add: ulp_def field_simps)
  then have "fl x = of_int (rhe (x / ulp x) * 2 ^ nat (expo x - 52 - (- 1022 - 52))) * 2 powi (- 1074)"
    by (simp add: fl_def)
  then show ?thesis by blast
qed

lemma fl_exact_subnormal:
  assumes "x = of_int n * 2 powi (- 1074)" and "\<bar>x\<bar> < 2 powi (- 1021)"
  shows "fl x = x"
proof -
  define c :: real where "c = 2 powi (- 1074)"
  have cpos: "0 < c" unfolding c_def by (rule two_powi_pos)
  from assms(2) have "expo x = - 1022" by (rule expo_subnormal)
  then have u: "ulp x = c" by (simp add: ulp_def c_def)
  have xc: "x = of_int n * c" unfolding c_def by (rule assms(1))
  have "x / c = of_int n" using cpos by (simp add: xc)
  then have "rhe (x / c) = n" by (simp only: rhe_of_int)
  then show ?thesis
    unfolding fl_def u by (simp add: xc)
qed

lemma fl_tiny:
  assumes "\<bar>x\<bar> < 2 powi (- 1075)"
  shows "fl x = 0"
proof -
  have "(2::real) powi (- 1075) \<le> 2 powi (- 1021)" by (intro two_powi_mono) simp
  with assms have "\<bar>x\<bar> < 2 powi (- 1021)" by linarith
  then have "expo x = - 1022" by (rule expo_subnormal)
  then have u: "ulp x = 2 powi (- 1074)" by (simp add: ulp_def)
  have "(2::real) powi (- 1075) = 2 powi (- 1074) / 2 powi 1"
    using two_powi_diff [of "- 1074" 1] by simp
  with assms have "\<bar>x\<bar> < 2 powi (- 1074) / 2" by simp
  then have "\<bar>x / ulp x\<bar> < 1 / 2"
    unfolding u by (simp add: field_simps)
  then have "rhe (x / ulp x) = 0" by (rule rhe_zero)
  then show ?thesis by (simp add: fl_def)
qed

lemma fl_exact:
  assumes "x = of_int m * 2 powi g" and "\<bar>m\<bar> < 2 ^ 53" and "- 1074 \<le> g"
  shows "fl x = x"
proof -
  have eg: "expo x - 52 \<le> g"
  proof (cases "expo x = - 1022")
    case True
    with assms(3) show ?thesis by simp
  next
    case False
    with expo_le [of x] have "2 powi (expo x) \<le> \<bar>x\<bar>" by simp
    also have "\<bar>x\<bar> = \<bar>of_int m\<bar> * 2 powi g"
      unfolding assms(1) by (simp add: abs_mult)
    also have "\<dots> < 2 powi 53 * 2 powi g"
    proof -
      have "\<bar>real_of_int m\<bar> < 2 ^ 53"
        using assms(2) by (metis of_int_abs of_int_less_numeral_power_cancel_iff)
      then show ?thesis by simp
    qed
    also have "\<dots> = 2 powi (53 + g)"
      by (simp only: two_powi_add)
    finally have "expo x < 53 + g" by (rule two_powi_less_D)
    then show ?thesis by simp
  qed
  have "(2::real) powi g / ulp x = of_int (2 ^ nat (g - (expo x - 52)))"
    unfolding ulp_def using eg by (rule two_powi_ratio_int)
  then have "of_int m * (2 powi g / ulp x) = of_int (m * 2 ^ nat (g - (expo x - 52)))"
    by simp
  moreover have "of_int m * (2 powi g / ulp x) = x / ulp x"
    using assms(1) by simp
  ultimately have q: "x / ulp x = of_int (m * 2 ^ nat (g - (expo x - 52)))"
    by simp
  then have "rhe (x / ulp x) = m * 2 ^ nat (g - (expo x - 52))"
    by (simp only: rhe_of_int)
  then have "fl x = x / ulp x * ulp x"
    unfolding fl_def by (simp only: q)
  then show ?thesis
    using ulp_pos [of x] by simp
qed

lemma fl_of_int: "\<bar>m\<bar> < 2 ^ 53 \<Longrightarrow> fl (of_int m) = of_int m"
  using fl_exact [of "of_int m" m 0] by simp

lemma fl_binade:
  assumes "2 powi e \<le> \<bar>x\<bar>" and "\<bar>x\<bar> < 2 powi (e + 1)" and "- 1022 \<le> e" and "e \<le> 1023"
  shows "fl x = of_int (rhe (x / 2 powi (e - 52))) * 2 powi (e - 52)"
  using expo_eq [OF assms] by (simp add: fl_def ulp_def)

lemma rnd_Finite:
  assumes "0 \<le> x" and "x \<le> 2 powi k" and "- 1074 \<le> k" and "k \<le> 1023"
  shows "rnd x = Finite (fl x)"
proof -
  have "fl x \<le> 2 powi k" using assms(2,3) by (rule fl_le_two_powi)
  also have "(2::real) powi k < 2 powi 1024"
    using assms(4) by (intro power_int_strict_increasing) simp_all
  finally have "fl x < 2 powi 1024" .
  moreover have "0 \<le> fl x" using assms(1) by (rule fl_nonneg)
  moreover have "(0::real) < 2 powi 1024" by (rule two_powi_pos)
  ultimately show ?thesis
    unfolding rnd_def by (simp del: power_int_numeral)
qed

subsection \<open>The likelihood in binary64\<close>

lemma int_to_double_small: "\<bar>x\<bar> < 2 ^ 53 \<Longrightarrow> int_to_double x = Inr (of_int x)"
proof -
  assume a: "\<bar>x\<bar> < 2 ^ 53"
  then have f: "fl (of_int x) = of_int x" by (rule fl_of_int)
  from a have "\<bar>real_of_int x\<bar> < 2 ^ 53"
    by (metis of_int_abs of_int_less_numeral_power_cancel_iff)
  moreover have "(2::real) ^ 53 \<le> 2 powi 1024"
    using two_powi_mono [of 53 1024] by simp
  ultimately have "\<bar>real_of_int x\<bar> < 2 powi 1024" by linarith
  then show ?thesis
    unfolding int_to_double_def rnd_def f by (auto simp del: power_int_numeral)
qed

lemma d_float_pow_unit:
  assumes "0 \<le> b" and "b \<le> 1" and "0 \<le> e" and "e \<le> 10"
  shows "d_float_pow b e = Inr (fl (b ^ nat e))"
    and "0 \<le> fl (b ^ nat e)" and "fl (b ^ nat e) \<le> 1"
proof -
  have c: "int_to_double e = Inr (of_int e)"
    using assms(3,4) by (intro int_to_double_small) simp
  have p: "b powi e = b ^ nat e"
    using assms(3) by (rule power_int_nonneg_exp)
  have 0: "0 \<le> b ^ nat e" using assms(1) by simp
  have 1: "b ^ nat e \<le> 2 powi 0" using assms(1,2) by (simp add: power_le_one)
  have "rnd (b ^ nat e) = Finite (fl (b ^ nat e))"
    using 0 1 by (rule rnd_Finite) simp_all
  with c p assms(3) show "d_float_pow b e = Inr (fl (b ^ nat e))"
    by (simp add: d_float_pow_def)
  show "0 \<le> fl (b ^ nat e)" using 0 by (rule fl_nonneg)
  show "fl (b ^ nat e) \<le> 1" using fl_le_two_powi [OF 1] by simp
qed

lemma d_compute_joint_pr_unit:
  assumes "0 \<le> theta" and "theta \<le> 1" and "0 \<le> x" and "x \<le> 10"
  shows "\<exists>a. d_compute_joint_pr x theta 10 = Inr (Finite a) \<and> 0 \<le> a \<and> a \<le> 1
           \<and> (\<exists>m::int. a = of_int m * 2 powi (- 1074))"
proof -
  define p where "p = fl (theta ^ nat x)"
  define om where "om = fl (1 - theta)"
  define q where "q = fl (om ^ nat (10 - x))"
  have P: "d_float_pow theta x = Inr p" "0 \<le> p" "p \<le> 1"
    unfolding p_def using assms by (rule d_float_pow_unit)+
  have om0: "0 \<le> om" unfolding om_def using assms(2) by (intro fl_nonneg) simp
  have "1 - theta \<le> 2 powi 0" using assms(1) by simp
  then have om1: "om \<le> 1" unfolding om_def using fl_le_two_powi [of "1 - theta" 0] by simp
  have Q: "d_float_pow om (10 - x) = Inr q" "0 \<le> q" "q \<le> 1"
    unfolding q_def using om0 om1 assms(3,4) by (intro d_float_pow_unit; simp)+
  have pq0: "0 \<le> p * q" using P(2) Q(2) by simp
  have "p * q \<le> 1" using P(2,3) Q(2,3) by (simp add: mult_le_one)
  then have pq1: "p * q \<le> 2 powi 0" by simp
  have r: "rnd (p * q) = Finite (fl (p * q))"
    using pq0 pq1 by (rule rnd_Finite) simp_all
  have "d_compute_joint_pr x theta 10 = Inr (Finite (fl (p * q)))"
    using P(1) Q(1) r by (simp add: d_compute_joint_pr_def om_def)
  moreover have "0 \<le> fl (p * q)" using pq0 by (rule fl_nonneg)
  moreover have "fl (p * q) \<le> 1" using fl_le_two_powi [OF pq1] by simp
  moreover have "\<exists>m::int. fl (p * q) = of_int m * 2 powi (- 1074)" by (rule fl_multiple)
  ultimately show ?thesis by blast
qed


lemma power_lower:
  fixes c y :: real
  assumes "0 < c" and "c \<le> y" and "c \<le> 1" and "k \<le> 10"
  shows "c ^ 10 \<le> y ^ k"
proof -
  have "c ^ 10 \<le> c ^ k"
    using assms(1,3,4) by (intro power_decreasing) simp_all
  also have "c ^ k \<le> y ^ k"
    using assms(1,2) by (intro power_mono) simp_all
  finally show ?thesis .
qed

lemma two_powi_le_one: "a \<le> 0 \<Longrightarrow> (2::real) powi a \<le> 1"
  using two_powi_mono [of a 0] by simp

lemma two_powi_power: "((2::real) powi a) ^ n = 2 powi (a * int n)"
  by (rule power_int_power')

lemma d_compute_joint_pr_positive:
  assumes "2 powi (- 100) \<le> theta" and "theta \<le> 1 - 2 powi (- 53)"
    and "0 \<le> x" and "x \<le> 10"
  shows "\<exists>a. d_compute_joint_pr x theta 10 = Inr (Finite a) \<and> 2 powi (- 1010) \<le> a \<and> a \<le> 1"
proof -
  define p where "p = fl (theta ^ nat x)"
  define om where "om = fl (1 - theta)"
  define q where "q = fl (om ^ nat (10 - x))"
  have t0: "0 \<le> theta"
    using assms(1) two_powi_pos [of "- 100"] by linarith
  have t1: "theta \<le> 1"
    using assms(2) two_powi_pos [of "- 53"] by linarith
  have P: "d_float_pow theta x = Inr p" "0 \<le> p" "p \<le> 1"
    unfolding p_def using t0 t1 assms(3,4) by (rule d_float_pow_unit)+
  have om0: "0 \<le> om" unfolding om_def using t1 by (intro fl_nonneg) simp
  have "1 - theta \<le> 2 powi 0" using t0 by simp
  then have om1: "om \<le> 1" unfolding om_def using fl_le_two_powi [of "1 - theta" 0] by simp
  have Q: "d_float_pow om (10 - x) = Inr q" "0 \<le> q" "q \<le> 1"
    unfolding q_def using om0 om1 assms(3,4) by (intro d_float_pow_unit; simp)+
  have nx: "nat x \<le> 10" "nat (10 - x) \<le> 10" using assms(3,4) by simp_all
  have low: "2 powi (- 1010) \<le> p * q"
  proof (cases "theta \<le> 1 / 2")
    case True
    have "(2 powi (- 100)) ^ 10 \<le> theta ^ nat x"
      using assms(1) nx(1) by (intro power_lower) (simp_all add: two_powi_le_one del: power_int_numeral_neg_numeral)
    then have "2 powi (- 1000) \<le> theta ^ nat x"
      by (simp only: two_powi_power) simp
    then have lp: "2 powi (- 1000) \<le> p"
      unfolding p_def by (rule fl_ge_two_powi) simp
    have "2 powi (- 1) \<le> 1 - theta" using True by simp
    then have lo: "2 powi (- 1) \<le> om"
      unfolding om_def by (rule fl_ge_two_powi) simp
    have "(2 powi (- 1)) ^ 10 \<le> om ^ nat (10 - x)"
      using lo nx(2) by (intro power_lower) simp_all
    then have "2 powi (- 10) \<le> om ^ nat (10 - x)"
      by (simp only: two_powi_power) simp
    then have lq: "2 powi (- 10) \<le> q"
      unfolding q_def by (rule fl_ge_two_powi) simp
    have "2 powi (- 1000) * 2 powi (- 10) \<le> p * q"
      using lp lq P(2) by (intro mult_mono) (simp_all del: power_int_numeral_neg_numeral)
    moreover have "(2::real) powi (- 1000) * 2 powi (- 10) = 2 powi (- 1010)"
      using two_powi_add [of "- 1000" "- 10"] by simp
    ultimately show ?thesis by simp
  next
    case False
    then have "(2 powi (- 1)) \<le> theta" by simp
    then have "(2 powi (- 1)) ^ 10 \<le> theta ^ nat x"
      using nx(1) by (intro power_lower) simp_all
    then have "2 powi (- 10) \<le> theta ^ nat x"
      by (simp only: two_powi_power) simp
    then have lp: "2 powi (- 10) \<le> p"
      unfolding p_def by (rule fl_ge_two_powi) simp
    have "2 powi (- 53) \<le> 1 - theta" using assms(2) by simp
    then have lo: "2 powi (- 53) \<le> om"
      unfolding om_def by (rule fl_ge_two_powi) simp
    have "(2 powi (- 53)) ^ 10 \<le> om ^ nat (10 - x)"
      using lo nx(2) by (intro power_lower) (simp_all add: two_powi_le_one del: power_int_numeral_neg_numeral)
    then have "2 powi (- 530) \<le> om ^ nat (10 - x)"
      by (simp only: two_powi_power) simp
    then have lq: "2 powi (- 530) \<le> q"
      unfolding q_def by (rule fl_ge_two_powi) simp
    have "2 powi (- 10) * 2 powi (- 530) \<le> p * q"
      using lp lq P(2) by (intro mult_mono) (simp_all del: power_int_numeral_neg_numeral)
    moreover have "(2::real) powi (- 10) * 2 powi (- 530) = 2 powi (- 540)"
      using two_powi_add [of "- 10" "- 530"] by simp
    moreover have "(2::real) powi (- 1010) \<le> 2 powi (- 540)"
      by (intro two_powi_mono) simp
    ultimately show ?thesis by linarith
  qed
  have pq0: "0 \<le> p * q" using P(2) Q(2) by simp
  have "p * q \<le> 1" using P(2,3) Q(2,3) by (simp add: mult_le_one)
  then have pq1: "p * q \<le> 2 powi 0" by simp
  have r: "rnd (p * q) = Finite (fl (p * q))"
    using pq0 pq1 by (rule rnd_Finite) simp_all
  have "d_compute_joint_pr x theta 10 = Inr (Finite (fl (p * q)))"
    using P(1) Q(1) r by (simp add: d_compute_joint_pr_def om_def)
  moreover have "2 powi (- 1010) \<le> fl (p * q)"
    using low by (rule fl_ge_two_powi) simp
  moreover have "fl (p * q) \<le> 1" using fl_le_two_powi [OF pq1] by simp
  ultimately show ?thesis by blast
qed

subsection \<open>Normalizer and quotients in binary64\<close>

lemma eps_small: "(2::real) powi (- 53) \<le> 1 / 1000000" "0 < (2::real) powi (- 53)"
  by simp_all

lemma d_normalizer:
  assumes "0 \<le> a" and "0 \<le> b" and "a \<le> 1" and "b \<le> 1"
    and "a = of_int ma * 2 powi (- 1074)" and "b = of_int mb * 2 powi (- 1074)"
    and "a \<noteq> 0 \<or> b \<noteq> 0"
  shows "0 < fl (a + b)"
    and "\<bar>fl (a + b) - (a + b)\<bar> \<le> 2 powi (- 53) * (a + b)"
    and "rnd (a + b) = Finite (fl (a + b))"
proof -
  define c :: real where "c = 2 powi (- 1074)"
  have cpos: "0 < c" unfolding c_def by (rule two_powi_pos)
  have ac: "a = of_int ma * c" and bc: "b = of_int mb * c"
    unfolding c_def by (rule assms(5), rule assms(6))
  from assms(1) cpos have ma: "0 \<le> ma"
    unfolding ac by (simp add: zero_le_mult_iff)
  from assms(2) cpos have mb: "0 \<le> mb"
    unfolding bc by (simp add: zero_le_mult_iff)
  from assms(7) have "ma \<noteq> 0 \<or> mb \<noteq> 0"
    unfolding ac bc by auto
  with ma mb have "1 \<le> ma + mb" by linarith
  then have "1 \<le> real_of_int (ma + mb)" by linarith
  then have "1 * c \<le> real_of_int (ma + mb) * c"
    using cpos by (simp only: mult_le_cancel_right_pos)
  then have sc: "c \<le> a + b"
    unfolding ac bc by (simp add: algebra_simps)
  then have "2 powi (- 1074) \<le> a + b" by (simp only: c_def)
  then have "2 powi (- 1074) \<le> fl (a + b)"
    by (rule fl_ge_two_powi) simp
  with two_powi_pos [of "- 1074"] show "0 < fl (a + b)" by linarith
  have spos: "0 < a + b" using sc cpos by linarith
  show "\<bar>fl (a + b) - (a + b)\<bar> \<le> 2 powi (- 53) * (a + b)"
  proof (cases "a + b < 2 powi (- 1021)")
    case True
    have "a + b = of_int (ma + mb) * 2 powi (- 1074)"
      unfolding ac bc c_def by (simp add: algebra_simps)
    moreover from True spos have "\<bar>a + b\<bar> < 2 powi (- 1021)" by simp
    ultimately have "fl (a + b) = a + b" by (rule fl_exact_subnormal)
    then show ?thesis using spos by simp
  next
    case False
    have "(2::real) powi (- 1022) \<le> 2 powi (- 1021)" by (intro two_powi_mono) simp
    with False spos have "2 powi (- 1022) \<le> \<bar>a + b\<bar>" by linarith
    from fl_rel_error [OF this] spos show ?thesis by simp
  qed
  have "a + b \<le> 2" using assms(3,4) by simp
  with spos show "rnd (a + b) = Finite (fl (a + b))"
    by (intro rnd_Finite [where k = 1]) simp_all
qed

lemma ratio_bounds:
  fixes s t e :: real
  assumes "0 < s" and "\<bar>t - s\<bar> \<le> e * s" and "0 < e" and "e \<le> 1 / 1000000"
  shows "0 < t" and "1 - e \<le> s / t" and "s / t \<le> 1 + 2 * e"
proof -
  from assms(2) have lo: "(1 - e) * s \<le> t" and hi: "t \<le> (1 + e) * s"
    by (simp_all add: abs_le_iff algebra_simps)
  have "0 < (1 - e) * s" using assms(1,4) by simp
  with lo show tpos: "0 < t" by linarith
  have "(1 - e) * t \<le> (1 - e) * ((1 + e) * s)"
    using hi assms(4) by (intro mult_left_mono) simp_all
  also have "\<dots> = s - e * e * s" by (simp add: algebra_simps)
  also have "\<dots> \<le> s" using assms(1,3) by simp
  finally show "1 - e \<le> s / t" using tpos by (simp add: pos_le_divide_eq)
  have "s + e * (1 - 2 * e) * s = (1 + 2 * e) * ((1 - e) * s)" by (simp add: algebra_simps)
  also have "\<dots> \<le> (1 + 2 * e) * t"
    using lo assms(3) by (intro mult_left_mono) simp_all
  finally have "s + e * (1 - 2 * e) * s \<le> (1 + 2 * e) * t" .
  moreover have "0 \<le> e * (1 - 2 * e) * s" using assms(1,3,4) by simp
  ultimately have "s \<le> (1 + 2 * e) * t" by linarith
  then show "s / t \<le> 1 + 2 * e" using tpos by (simp add: pos_divide_le_eq)
qed

lemma d_quotients:
  assumes "0 \<le> a" and "0 \<le> b" and "a \<le> 1" and "b \<le> 1"
    and "a = of_int ma * 2 powi (- 1074)" and "b = of_int mb * 2 powi (- 1074)"
    and "a \<noteq> 0 \<or> b \<noteq> 0"
  shows "0 \<le> fl (a / fl (a + b))" and "fl (a / fl (a + b)) \<le> 2"
    and "rnd (a / fl (a + b)) = Finite (fl (a / fl (a + b)))"
    and "\<bar>fl (a / fl (a + b)) + fl (b / fl (a + b)) - 1\<bar> \<le> 4 * 2 powi (- 53)"
proof -
  define e :: real where "e = 2 powi (- 53)"
  define t where "t = fl (a + b)"
  have e: "0 < e" "e \<le> 1 / 1000000" unfolding e_def by (rule eps_small)+
  have s: "0 < a + b" using assms(1,2,7) by linarith
  have "\<bar>t - (a + b)\<bar> \<le> e * (a + b)"
    unfolding t_def e_def using assms by (rule d_normalizer(2))
  from ratio_bounds [OF s this e]
  have t: "0 < t" and r1: "1 - e \<le> (a + b) / t" and r2: "(a + b) / t \<le> 1 + 2 * e" .
  have qa0: "0 \<le> a / t" using assms(1) t by simp
  have qb0: "0 \<le> b / t" using assms(2) t by simp
  have sum: "a / t + b / t = (a + b) / t" by (simp add: add_divide_distrib)
  have qa2: "a / t < 2" using qb0 sum r2 e by linarith
  have qb2: "b / t < 2" using qa0 sum r2 e by linarith
  show "0 \<le> fl (a / fl (a + b))"
    using qa0 unfolding t_def by (rule fl_nonneg)
  have "a / t \<le> 2 powi 1" using qa2 by simp
  then have "fl (a / t) \<le> 2 powi 1" by (rule fl_le_two_powi) simp
  then show "fl (a / fl (a + b)) \<le> 2" by (simp add: t_def)
  from qa0 qa2 have "rnd (a / t) = Finite (fl (a / t))"
    by (intro rnd_Finite [where k = 1]) simp_all
  then show "rnd (a / fl (a + b)) = Finite (fl (a / fl (a + b)))" by (simp only: t_def)
  have "\<bar>fl (a / t) - a / t\<bar> \<le> e"
    unfolding e_def using qa0 qa2 by (intro fl_abs_error) simp
  moreover have "\<bar>fl (b / t) - b / t\<bar> \<le> e"
    unfolding e_def using qb0 qb2 by (intro fl_abs_error) simp
  ultimately have "\<bar>fl (a / t) + fl (b / t) - 1\<bar> \<le> 4 * e"
    using sum r1 r2 by (simp only: abs_le_iff) linarith
  then show "\<bar>fl (a / fl (a + b)) + fl (b / fl (a + b)) - 1\<bar> \<le> 4 * 2 powi (- 53)"
    by (simp only: t_def e_def)
qed

lemma fl_eval:
  assumes "2 powi e \<le> \<bar>x\<bar>" and "\<bar>x\<bar> < 2 powi (e + 1)" and "- 1022 \<le> e" and "e \<le> 1023"
    and "rhe (x / 2 powi (e - 52)) = m"
  shows "fl x = of_int m * 2 powi (e - 52)"
  using fl_binade [OF assms(1-4)] assms(5) by simp

lemma rnd_eval: "fl x = y \<Longrightarrow> \<bar>y\<bar> < 2 powi 1024 \<Longrightarrow> rnd x = Finite y"
  unfolding rnd_def by (auto simp del: power_int_numeral)

lemma d_compute_joint_pr_eval:
  assumes "0 \<le> theta" and "theta \<le> 1" and "0 \<le> x" and "x \<le> 10"
    and "fl (theta ^ nat x) = p" and "fl (1 - theta) = om"
    and "fl (om ^ nat (10 - x)) = q" and "fl (p * q) = a"
  shows "d_compute_joint_pr x theta 10 = Inr (Finite a)"
proof -
  have P: "d_float_pow theta x = Inr p" "0 \<le> p" "p \<le> 1"
    unfolding assms(5) [symmetric] using assms(1-4) by (rule d_float_pow_unit)+
  have om0: "0 \<le> om" unfolding assms(6) [symmetric] using assms(2) by (intro fl_nonneg) simp
  have "1 - theta \<le> 2 powi 0" using assms(1) by simp
  then have om1: "om \<le> 1"
    unfolding assms(6) [symmetric] using fl_le_two_powi [of "1 - theta" 0] by simp
  have Q: "d_float_pow om (10 - x) = Inr q" "0 \<le> q" "q \<le> 1"
    unfolding assms(7) [symmetric] using om0 om1 assms(3,4) by (intro d_float_pow_unit; simp)+
  have pq0: "0 \<le> p * q" using P(2) Q(2) by simp
  have "p * q \<le> 1" using P(2,3) Q(2,3) by (simp add: mult_le_one)
  then have pq1: "p * q \<le> 2 powi 0" by simp
  have "rnd (p * q) = Finite (fl (p * q))"
    using pq0 pq1 by (rule rnd_Finite) simp_all
  then show ?thesis
    using P(1) Q(1) by (simp add: d_compute_joint_pr_def assms(6,8))
qed

lemma d_compute_joint_pr_underflow:
  assumes "0 \<le> theta" and "theta \<le> 2 powi (- 132)" and "9 \<le> x" and "x \<le> 10"
  shows "d_compute_joint_pr x theta 10 = Inr (Finite 0)"
proof -
  have t1: "theta \<le> 1"
    using assms(2) two_powi_le_one [of "- 132"] by simp
  have n: "9 \<le> nat x" using assms(3) by simp
  have x0: "0 \<le> x" using assms(3) by simp
  have "theta ^ nat x \<le> theta ^ 9"
    using assms(1) t1 n by (intro power_decreasing) simp_all
  also have "theta ^ 9 \<le> (2 powi (- 132)) ^ 9"
    using assms(1,2) by (intro power_mono) simp_all
  also have "\<dots> = 2 powi (- 1188)"
    by (simp only: two_powi_power) simp
  also have "\<dots> < 2 powi (- 1075)"
    by (intro power_int_strict_increasing) simp_all
  finally have "\<bar>theta ^ nat x\<bar> < 2 powi (- 1075)"
    using assms(1) by simp
  then have p: "fl (theta ^ nat x) = 0" by (rule fl_tiny)
  have z: "fl (0 * fl (fl (1 - theta) ^ nat (10 - x))) = 0" by (simp add: fl_zero)
  show ?thesis
    using assms(1) t1 x0 assms(4) p refl refl z by (rule d_compute_joint_pr_eval)
qed

lemma d_round_unit:
  assumes "0 \<le> q" and "q \<le> 2"
  shows "d_round (Finite q) 3 = Inr (Finite (fl (of_int \<lfloor>q * 1000 + 1 / 2\<rfloor> / 1000)))"
proof -
  define k where "k = \<lfloor>q * 1000 + 1 / 2\<rfloor>"
  have p: "py_round q 3 = of_int k / 1000"
    using assms(1) by (simp add: py_round_def k_def)
  have "0 \<le> k" unfolding k_def using assms(1) by simp
  then have k0: "0 \<le> real_of_int k / 1000" by simp
  have "real_of_int k \<le> q * 1000 + 1 / 2" unfolding k_def by linarith
  with assms(2) have k4: "real_of_int k / 1000 \<le> 4" by simp
  from k0 k4 have "rnd (real_of_int k / 1000) = Finite (fl (real_of_int k / 1000))"
    by (intro rnd_Finite [where k = 2]) simp_all
  then show ?thesis
    by (simp add: p k_def)
qed

lemma d_e_row_value:
  assumes "d_compute_joint_pr heads theta_A 10 = Inr (Finite a)"
    and "d_compute_joint_pr heads theta_B 10 = Inr (Finite b)"
    and "0 \<le> a" and "0 \<le> b" and "a \<le> 1" and "b \<le> 1"
    and "a = of_int ma * 2 powi (- 1074)" and "b = of_int mb * 2 powi (- 1074)"
    and "a \<noteq> 0 \<or> b \<noteq> 0" and "i < nrows" and "0 \<le> heads" and "heads \<le> 10"
  shows "d_e_row i heads theta_A theta_B nrows =
           Inr \<lparr>d_draw = rnd (real (i + 1)), d_x_heads = Finite (of_int heads),
                d_lk_A = Finite (fl (of_int \<lfloor>fl (a / fl (a + b)) * 1000 + 1 / 2\<rfloor> / 1000)),
                d_lk_B = Finite (fl (of_int \<lfloor>fl (b / fl (a + b)) * 1000 + 1 / 2\<rfloor> / 1000))\<rparr>"
proof -
  note ab = assms(3-9)
  have ba: "b \<noteq> 0 \<or> a \<noteq> 0" using assms(9) by blast
  have t: "rnd (a + b) = Finite (fl (a + b))"
    using ab by (rule d_normalizer(3))
  have tpos: "0 < fl (a + b)" using ab by (rule d_normalizer(1))
  have h: "int_to_double heads = Inr (of_int heads)"
    using assms(11,12) by (intro int_to_double_small) simp
  have qa: "rnd (a / fl (a + b)) = Finite (fl (a / fl (a + b)))"
    using ab by (rule d_quotients(3))
  have qb: "rnd (b / fl (a + b)) = Finite (fl (b / fl (a + b)))"
    using d_quotients(3) [OF assms(4,3,6,5,8,7) ba] by (simp add: add.commute)
  have ra: "d_round (Finite (fl (a / fl (a + b)))) 3 =
      Inr (Finite (fl (of_int \<lfloor>fl (a / fl (a + b)) * 1000 + 1 / 2\<rfloor> / 1000)))"
    using d_quotients(1,2) [OF ab] by (rule d_round_unit)
  have rb: "d_round (Finite (fl (b / fl (a + b)))) 3 =
      Inr (Finite (fl (of_int \<lfloor>fl (b / fl (a + b)) * 1000 + 1 / 2\<rfloor> / 1000)))"
    using d_quotients(1,2) [OF assms(4,3,6,5,8,7) ba]
    by (intro d_round_unit) (simp_all add: add.commute)
  show ?thesis
    unfolding d_e_row_def assms(1,2) using tpos assms(10)
    by (simp add: t h qa qb ra rb Let_def del: d_round.simps)
qed

lemma d_e_row_zero:
  assumes "d_compute_joint_pr heads theta_A 10 = Inr (Finite 0)"
    and "d_compute_joint_pr heads theta_B 10 = Inr (Finite 0)"
    and "i < nrows" and "0 \<le> heads" and "heads \<le> 10"
  shows "d_e_row i heads theta_A theta_B nrows = Inl ZeroDivisionError"
proof -
  have "rnd 0 = Finite 0"
    using rnd_Finite [of 0 0] by (simp add: fl_zero)
  moreover have "int_to_double heads = Inr (of_int heads)"
    using assms(4,5) by (intro int_to_double_small) simp
  ultimately show ?thesis
    unfolding d_e_row_def assms(1,2) using assms(3) by (simp add: Let_def)
qed

lemma d_e_row_Inr_index: "d_e_row i heads theta_A theta_B nrows = Inr r \<Longrightarrow> i < nrows"
  unfolding d_e_row_def Let_def by (auto split: sum.splits if_splits)

subsection \<open>The E step in binary64: equal parameters, the normalizer, the sum\<close>

lemma d_e_loop_length:
  "d_e_loop i hs theta_A theta_B jps = Inr df \<Longrightarrow> length df = length jps"
  by (induction hs arbitrary: i jps) (auto split: sum.splits)

lemma d_e_loop_nth_other:
  "d_e_loop i hs theta_A theta_B jps = Inr df \<Longrightarrow> j < i \<or> i + length hs \<le> j \<Longrightarrow>
     df ! j = jps ! j"
  by (induction hs arbitrary: i jps) (auto split: sum.splits)

lemma d_e_loop_nth_row:
  "d_e_loop i hs theta_A theta_B jps = Inr df \<Longrightarrow> k < length hs \<Longrightarrow>
     d_e_row (i + k) (hs ! k) theta_A theta_B (length jps) = Inr (df ! (i + k))"
proof (induction hs arbitrary: i jps k)
  case Nil
  then show ?case by simp
next
  case (Cons h hs)
  from Cons.prems(1) obtain r where r: "d_e_row i h theta_A theta_B (length jps) = Inr r"
    and rest: "d_e_loop (i + 1) hs theta_A theta_B (jps[i := r]) = Inr df"
    by (auto split: sum.splits)
  show ?case
  proof (cases k)
    case 0
    from r have "i < length jps"
      by (rule d_e_row_Inr_index)
    moreover have "df ! i = (jps[i := r]) ! i"
      using rest by (rule d_e_loop_nth_other) simp
    ultimately show ?thesis
      using r 0 by simp
  next
    case (Suc k')
    with Cons.prems(2) have "k' < length hs"
      by simp
    from Cons.IH [OF rest this] show ?thesis
      using Suc by simp
  qed
qed

lemma d_e_loop_succeeds:
  "(\<And>k. k < length hs \<Longrightarrow>
      \<exists>r. d_e_row (i + k) (hs ! k) theta_A theta_B (length jps) = Inr r) \<Longrightarrow>
     \<exists>df. d_e_loop i hs theta_A theta_B jps = Inr df"
proof (induction hs arbitrary: i jps)
  case Nil
  then show ?case by simp
next
  case (Cons h hs)
  from Cons.prems [of 0] obtain r where r: "d_e_row i h theta_A theta_B (length jps) = Inr r"
    by auto
  have "\<exists>df. d_e_loop (i + 1) hs theta_A theta_B (jps[i := r]) = Inr df"
  proof (rule Cons.IH)
    fix k assume "k < length hs"
    then show "\<exists>r'. d_e_row (i + 1 + k) (hs ! k) theta_A theta_B (length (jps[i := r])) = Inr r'"
      using Cons.prems [of "Suc k"] by simp
  qed
  with r show ?case by simp
qed

lemma d_e_row_equal_thetas:
  assumes "2 powi (- 100) \<le> theta" and "theta \<le> 1 - 2 powi (- 53)"
    and "0 \<le> heads" and "heads \<le> 10" and "i < nrows"
  shows "d_e_row i heads theta theta nrows =
           Inr \<lparr>d_draw = rnd (real (i + 1)), d_x_heads = Finite (of_int heads),
                d_lk_A = Finite (1 / 2), d_lk_B = Finite (1 / 2)\<rparr>"
proof -
  have t0: "0 \<le> theta"
    using assms(1) two_powi_pos [of "- 100"] by linarith
  have t1: "theta \<le> 1"
    using assms(2) two_powi_pos [of "- 53"] by linarith
  obtain v m where v: "d_compute_joint_pr heads theta 10 = Inr (Finite v)"
    and v0: "0 \<le> v" and v1: "v \<le> 1" and vm: "v = of_int m * 2 powi (- 1074)"
    using d_compute_joint_pr_unit [OF t0 t1 assms(3,4)] by blast
  obtain w where "d_compute_joint_pr heads theta 10 = Inr (Finite w)" and "2 powi (- 1010) \<le> w"
    using d_compute_joint_pr_positive [OF assms(1-4)] by blast
  with v have "2 powi (- 1010) \<le> v" by simp
  with two_powi_pos [of "- 1010"] have vpos: "v \<noteq> 0 \<or> v \<noteq> 0" by auto
  define q where "q = fl (v / fl (v + v))"
  have "\<bar>q + q - 1\<bar> \<le> 4 * 2 powi (- 53)"
    unfolding q_def using v0 v0 v1 v1 vm vm vpos by (rule d_quotients(4))
  with eps_small(1) have "\<lfloor>q * 1000 + 1 / 2\<rfloor> = 500"
    by (simp only: abs_le_iff) linarith
  then have "fl (of_int \<lfloor>q * 1000 + 1 / 2\<rfloor> / 1000) = fl (2 powi (- 1))"
    by simp
  also have "\<dots> = 2 powi (- 1)"
    by (rule fl_two_powi) simp
  finally have half: "fl (of_int \<lfloor>q * 1000 + 1 / 2\<rfloor> / 1000) = 1 / 2"
    by simp
  show ?thesis
    using d_e_row_value [OF v v v0 v0 v1 v1 vm vm vpos assms(5,3,4)]
    by (simp only: half q_def [symmetric])
qed

text \<open>
  C7, as the code has it. Let \<open>\<theta>\<^sub>A = \<theta>\<^sub>B = \<theta>\<close> be at least \<open>2\<^sup>-\<^sup>1\<^sup>0\<^sup>0\<close> and at most \<open>1 - 2\<^sup>-\<^sup>5\<^sup>3\<close>,
  the largest double below 1, let every draw lie in \<open>[0, 10]\<close>, and let the table have a row
  for each draw (the notebook's has five). Then the E step loop returns a table, and in it
  both responsibilities of every draw are \<open>0.5\<close>.
\<close>

theorem d_e_loop_equal_thetas:
  assumes "2 powi (- 100) \<le> theta" and "theta \<le> 1 - 2 powi (- 53)"
    and "\<forall>heads\<in>set data. 0 \<le> heads \<and> heads \<le> 10"
    and "length data \<le> length jps"
  shows "\<exists>df. d_e_loop 0 data theta theta jps = Inr df
           \<and> (\<forall>i<length data. d_lk_A (df ! i) = Finite (1 / 2) \<and> d_lk_B (df ! i) = Finite (1 / 2))"
proof -
  have row: "d_e_row (0 + k) (data ! k) theta theta (length jps) =
      Inr \<lparr>d_draw = rnd (real (0 + k + 1)), d_x_heads = Finite (of_int (data ! k)),
           d_lk_A = Finite (1 / 2), d_lk_B = Finite (1 / 2)\<rparr>" if "k < length data" for k
  proof (rule d_e_row_equal_thetas [OF assms(1,2)])
    from that have "data ! k \<in> set data" by simp
    with assms(3) show "0 \<le> data ! k" "data ! k \<le> 10" by auto
    from that assms(4) show "0 + k < length jps" by simp
  qed
  have "\<exists>df. d_e_loop 0 data theta theta jps = Inr df"
    by (rule d_e_loop_succeeds) (use row in blast)
  then obtain df where df: "d_e_loop 0 data theta theta jps = Inr df"
    by blast
  have "d_lk_A (df ! i) = Finite (1 / 2) \<and> d_lk_B (df ! i) = Finite (1 / 2)"
    if "i < length data" for i
    using d_e_loop_nth_row [OF df that] row [OF that] by simp
  with df show ?thesis
    by blast
qed

text \<open>
  C8, as the code has it. For parameters in \<open>[0, 1]\<close> and a draw in \<open>[0, 10]\<close> both
  likelihoods are computed and are not negative. When both are zero the loop body
  reaches the unguarded division by \<open>t = 0.0\<close> and raises \<^verbatim>\<open>ZeroDivisionError\<close>; otherwise
  \<open>t\<close> is strictly positive and the body writes its row. A parameter from \<open>2\<^sup>-\<^sup>1\<^sup>0\<^sup>0\<close> up to
  \<open>1 - 2\<^sup>-\<^sup>5\<^sup>3\<close> has a positive likelihood; a parameter strictly between 0 and 1 need not,
  since its powers can underflow to \<open>0.0\<close>.
\<close>

theorem d_e_row_normalizer:
  assumes "0 \<le> theta_A" and "theta_A \<le> 1" and "0 \<le> theta_B" and "theta_B \<le> 1"
    and "0 \<le> heads" and "heads \<le> 10" and "i < nrows"
  shows "\<exists>a b. d_compute_joint_pr heads theta_A 10 = Inr (Finite a)
           \<and> d_compute_joint_pr heads theta_B 10 = Inr (Finite b)
           \<and> 0 \<le> a \<and> 0 \<le> b
           \<and> (a = 0 \<and> b = 0 \<longrightarrow>
                d_e_row i heads theta_A theta_B nrows = Inl ZeroDivisionError)
           \<and> (a \<noteq> 0 \<or> b \<noteq> 0 \<longrightarrow>
                (\<exists>t r. d_add (Finite a) (Finite b) = Finite t \<and> 0 < t
                   \<and> d_e_row i heads theta_A theta_B nrows = Inr r))
           \<and> (2 powi (- 100) \<le> theta_A \<and> theta_A \<le> 1 - 2 powi (- 53) \<longrightarrow> 0 < a)
           \<and> (2 powi (- 100) \<le> theta_B \<and> theta_B \<le> 1 - 2 powi (- 53) \<longrightarrow> 0 < b)"
proof -
  obtain a ma where a: "d_compute_joint_pr heads theta_A 10 = Inr (Finite a)"
    and a0: "0 \<le> a" and a1: "a \<le> 1" and am: "a = of_int ma * 2 powi (- 1074)"
    using d_compute_joint_pr_unit [OF assms(1,2,5,6)] by blast
  obtain b mb where b: "d_compute_joint_pr heads theta_B 10 = Inr (Finite b)"
    and b0: "0 \<le> b" and b1: "b \<le> 1" and bm: "b = of_int mb * 2 powi (- 1074)"
    using d_compute_joint_pr_unit [OF assms(3,4,5,6)] by blast
  have zero: "d_e_row i heads theta_A theta_B nrows = Inl ZeroDivisionError"
    if "a = 0 \<and> b = 0"
    using d_e_row_zero [OF _ _ assms(7,5,6)] a b that by simp
  have pos: "\<exists>t r. d_add (Finite a) (Finite b) = Finite t \<and> 0 < t
      \<and> d_e_row i heads theta_A theta_B nrows = Inr r" if "a \<noteq> 0 \<or> b \<noteq> 0"
  proof -
    have "d_add (Finite a) (Finite b) = Finite (fl (a + b))"
      using d_normalizer(3) [OF a0 b0 a1 b1 am bm that] by simp
    moreover have "0 < fl (a + b)"
      using a0 b0 a1 b1 am bm that by (rule d_normalizer(1))
    moreover have "\<exists>r. d_e_row i heads theta_A theta_B nrows = Inr r"
      using d_e_row_value [OF a b a0 b0 a1 b1 am bm that assms(7,5,6)] by blast
    ultimately show ?thesis by blast
  qed
  have pa: "0 < a" if "2 powi (- 100) \<le> theta_A \<and> theta_A \<le> 1 - 2 powi (- 53)"
  proof -
    from that have 1: "2 powi (- 100) \<le> theta_A" and 2: "theta_A \<le> 1 - 2 powi (- 53)"
      by simp_all
    obtain w where "d_compute_joint_pr heads theta_A 10 = Inr (Finite w)"
      and "2 powi (- 1010) \<le> w"
      using d_compute_joint_pr_positive [OF 1 2 assms(5,6)] by blast
    with a two_powi_pos [of "- 1010"] show ?thesis by simp
  qed
  have pb: "0 < b" if "2 powi (- 100) \<le> theta_B \<and> theta_B \<le> 1 - 2 powi (- 53)"
  proof -
    from that have 1: "2 powi (- 100) \<le> theta_B" and 2: "theta_B \<le> 1 - 2 powi (- 53)"
      by simp_all
    obtain w where "d_compute_joint_pr heads theta_B 10 = Inr (Finite w)"
      and "2 powi (- 1010) \<le> w"
      using d_compute_joint_pr_positive [OF 1 2 assms(5,6)] by blast
    with b two_powi_pos [of "- 1010"] show ?thesis by simp
  qed
  from a b a0 b0 zero pos pa pb show ?thesis
    by blast
qed

text \<open>
  C4, as the code has it. For parameters in \<open>[0, 1]\<close> and a draw in \<open>[0, 10]\<close>, whenever
  the loop body writes its row, the two stored responsibilities are the doubles nearest to
  \<open>k\<^sub>A/1000\<close> and \<open>k\<^sub>B/1000\<close> for integers \<open>k\<^sub>A, k\<^sub>B \<ge> 0\<close> with \<open>999 \<le> k\<^sub>A + k\<^sub>B \<le> 1001\<close>:
  each quotient is rounded to three decimals on its own, so the two sum to 1 to within one
  unit of the third decimal, and not always to 1.
\<close>

theorem d_e_row_responsibilities_sum:
  assumes "0 \<le> theta_A" and "theta_A \<le> 1" and "0 \<le> theta_B" and "theta_B \<le> 1"
    and "0 \<le> heads" and "heads \<le> 10"
    and "d_e_row i heads theta_A theta_B nrows = Inr r"
  shows "\<exists>kA kB :: int.
           d_lk_A r = Finite (fl (of_int kA / 1000)) \<and> d_lk_B r = Finite (fl (of_int kB / 1000))
           \<and> 0 \<le> kA \<and> 0 \<le> kB \<and> 999 \<le> kA + kB \<and> kA + kB \<le> 1001"
proof -
  have i: "i < nrows" using assms(7) by (rule d_e_row_Inr_index)
  obtain a ma where a: "d_compute_joint_pr heads theta_A 10 = Inr (Finite a)"
    and a0: "0 \<le> a" and a1: "a \<le> 1" and am: "a = of_int ma * 2 powi (- 1074)"
    using d_compute_joint_pr_unit [OF assms(1,2,5,6)] by blast
  obtain b mb where b: "d_compute_joint_pr heads theta_B 10 = Inr (Finite b)"
    and b0: "0 \<le> b" and b1: "b \<le> 1" and bm: "b = of_int mb * 2 powi (- 1074)"
    using d_compute_joint_pr_unit [OF assms(3,4,5,6)] by blast
  have nz: "a \<noteq> 0 \<or> b \<noteq> 0"
  proof (rule ccontr)
    assume "\<not> (a \<noteq> 0 \<or> b \<noteq> 0)"
    then have "d_e_row i heads theta_A theta_B nrows = Inl ZeroDivisionError"
      using d_e_row_zero [OF _ _ i assms(5,6)] a b by simp
    with assms(7) show False by simp
  qed
  have ba: "b \<noteq> 0 \<or> a \<noteq> 0" using nz by blast
  define qA where "qA = fl (a / fl (a + b))"
  define qB where "qB = fl (b / fl (a + b))"
  define kA where "kA = \<lfloor>qA * 1000 + 1 / 2\<rfloor>"
  define kB where "kB = \<lfloor>qB * 1000 + 1 / 2\<rfloor>"
  have r: "r = \<lparr>d_draw = rnd (real (i + 1)), d_x_heads = Finite (of_int heads),
                d_lk_A = Finite (fl (of_int kA / 1000)),
                d_lk_B = Finite (fl (of_int kB / 1000))\<rparr>"
    using d_e_row_value [OF a b a0 b0 a1 b1 am bm nz i assms(5,6)] assms(7)
    by (simp add: kA_def kB_def qA_def qB_def)
  have qA0: "0 \<le> qA" unfolding qA_def using a0 b0 a1 b1 am bm nz by (rule d_quotients(1))
  have qB0: "0 \<le> qB"
    using d_quotients(1) [OF b0 a0 b1 a1 bm am ba] by (simp add: qB_def add.commute)
  have s: "\<bar>qA + qB - 1\<bar> \<le> 4 * 2 powi (- 53)"
    unfolding qA_def qB_def using a0 b0 a1 b1 am bm nz by (rule d_quotients(4))
  have fA: "real_of_int kA \<le> qA * 1000 + 1 / 2" "qA * 1000 + 1 / 2 < real_of_int kA + 1"
    unfolding kA_def by linarith+
  have fB: "real_of_int kB \<le> qB * 1000 + 1 / 2" "qB * 1000 + 1 / 2 < real_of_int kB + 1"
    unfolding kB_def by linarith+
  have "0 \<le> kA" unfolding kA_def using qA0 by simp
  moreover have "0 \<le> kB" unfolding kB_def using qB0 by simp
  moreover have "real_of_int (kA + kB) < 1002" "998 < real_of_int (kA + kB)"
    using fA fB s eps_small(1) by (simp_all only: abs_le_iff of_int_add) linarith+
  then have "999 \<le> kA + kB" "kA + kB \<le> 1001" by linarith+
  ultimately show ?thesis
    using r by auto
qed

subsection \<open>Runs of the binary64 E step\<close>

lemma d_e_row_eval:
  assumes "0 \<le> theta_A" and "theta_A \<le> 1" and "0 \<le> theta_B" and "theta_B \<le> 1"
    and "0 \<le> heads" and "heads \<le> 10" and "i < nrows"
    and "d_compute_joint_pr heads theta_A 10 = Inr (Finite a)"
    and "d_compute_joint_pr heads theta_B 10 = Inr (Finite b)"
    and "a \<noteq> 0 \<or> b \<noteq> 0"
    and "fl (a + b) = t" and "fl (a / t) = qa" and "fl (b / t) = qb"
    and "fl (of_int \<lfloor>qa * 1000 + 1 / 2\<rfloor> / 1000) = ra"
    and "fl (of_int \<lfloor>qb * 1000 + 1 / 2\<rfloor> / 1000) = rb"
    and "fl (real (i + 1)) = dr" and "\<bar>dr\<bar> < 2 powi 1024"
  shows "d_e_row i heads theta_A theta_B nrows =
           Inr \<lparr>d_draw = Finite dr, d_x_heads = Finite (of_int heads),
                d_lk_A = Finite ra, d_lk_B = Finite rb\<rparr>"
proof -
  obtain a' ma where a: "d_compute_joint_pr heads theta_A 10 = Inr (Finite a')"
    and a0: "0 \<le> a'" and a1: "a' \<le> 1" and am: "a' = of_int ma * 2 powi (- 1074)"
    using d_compute_joint_pr_unit [OF assms(1,2,5,6)] by blast
  obtain b' mb where b: "d_compute_joint_pr heads theta_B 10 = Inr (Finite b')"
    and b0: "0 \<le> b'" and b1: "b' \<le> 1" and bm: "b' = of_int mb * 2 powi (- 1074)"
    using d_compute_joint_pr_unit [OF assms(3,4,5,6)] by blast
  from a b assms(8,9) have e: "a' = a" "b' = b" by simp_all
  have d: "rnd (real (i + 1)) = Finite dr"
    using assms(16,17) by (rule rnd_eval)
  show ?thesis
    using d_e_row_value [OF assms(8,9) a0 [unfolded e] b0 [unfolded e] a1 [unfolded e]
        b1 [unfolded e] am [unfolded e] bm [unfolded e] assms(10,7,5,6)]
    by (simp only: assms(11-15) d)
qed

lemma d_e_row_returns:
  assumes "0 \<le> theta_A" and "theta_A \<le> 1"
    and "2 powi (- 100) \<le> theta_B" and "theta_B \<le> 1 - 2 powi (- 53)"
    and "0 \<le> heads" and "heads \<le> 10" and "i < nrows"
  shows "\<exists>r. d_e_row i heads theta_A theta_B nrows = Inr r"
proof -
  have t0: "0 \<le> theta_B"
    using assms(3) two_powi_pos [of "- 100"] by linarith
  have t1: "theta_B \<le> 1"
    using assms(4) two_powi_pos [of "- 53"] by linarith
  obtain a ma where a: "d_compute_joint_pr heads theta_A 10 = Inr (Finite a)"
    and a0: "0 \<le> a" and a1: "a \<le> 1" and am: "a = of_int ma * 2 powi (- 1074)"
    using d_compute_joint_pr_unit [OF assms(1,2,5,6)] by blast
  obtain b mb where b: "d_compute_joint_pr heads theta_B 10 = Inr (Finite b)"
    and b0: "0 \<le> b" and b1: "b \<le> 1" and bm: "b = of_int mb * 2 powi (- 1074)"
    using d_compute_joint_pr_unit [OF t0 t1 assms(5,6)] by blast
  obtain w where "d_compute_joint_pr heads theta_B 10 = Inr (Finite w)" and "2 powi (- 1010) \<le> w"
    using d_compute_joint_pr_positive [OF assms(3-6)] by blast
  with b two_powi_pos [of "- 1010"] have "a \<noteq> 0 \<or> b \<noteq> 0" by simp
  from d_e_row_value [OF a b a0 b0 a1 b1 am bm this assms(7,5,6)] show ?thesis
    by blast
qed

lemma fl_3_10: "2 powi (- 100) \<le> fl (3 / 10)" "fl (3 / 10) \<le> 1 - 2 powi (- 53)"
  "0 \<le> fl (3 / 10)" "fl (3 / 10) \<le> 1"
proof -
  have "2 powi (- 2) \<le> (3 / 10 :: real)" by simp
  then have l: "2 powi (- 2) \<le> fl (3 / 10)" by (rule fl_ge_two_powi) simp
  have "(3 / 10 :: real) \<le> 2 powi (- 1)" by simp
  then have u: "fl (3 / 10) \<le> 2 powi (- 1)" by (rule fl_le_two_powi) simp
  have "(2::real) powi (- 100) \<le> 2 powi (- 2)" by (intro two_powi_mono) simp
  with l show "2 powi (- 100) \<le> fl (3 / 10)" by linarith
  from u show "fl (3 / 10) \<le> 1 - 2 powi (- 53)" by simp
  from l show "0 \<le> fl (3 / 10)" by simp
  from u show "fl (3 / 10) \<le> 1" by simp
qed

lemma fl_tiny_literal:
  "0 < fl (1 / 10 ^ 40)" "fl (1 / 10 ^ 40) \<le> 2 powi (- 132)"
  "0 < fl (1 / 10 ^ 50)" "fl (1 / 10 ^ 50) \<le> 2 powi (- 132)"
proof -
  have "2 powi (- 133) \<le> (1 / 10 ^ 40 :: real)" by simp
  then have "2 powi (- 133) \<le> fl (1 / 10 ^ 40)" by (rule fl_ge_two_powi) simp
  then show "0 < fl (1 / 10 ^ 40)" by simp
  have "(1 / 10 ^ 40 :: real) \<le> 2 powi (- 132)" by simp
  then show "fl (1 / 10 ^ 40) \<le> 2 powi (- 132)" by (rule fl_le_two_powi) simp
  have "2 powi (- 167) \<le> (1 / 10 ^ 50 :: real)" by simp
  then have "2 powi (- 167) \<le> fl (1 / 10 ^ 50)" by (rule fl_ge_two_powi) simp
  then show "0 < fl (1 / 10 ^ 50)" by simp
  have "(1 / 10 ^ 50 :: real) \<le> 2 powi (- 132)" by simp
  then show "fl (1 / 10 ^ 50) \<le> 2 powi (- 132)" by (rule fl_le_two_powi) simp
qed

text \<open>
  Two runs of the loop body on a draw of 9 heads. With \<open>\<theta>\<^sub>A\<close> and \<open>\<theta>\<^sub>B\<close> the doubles next above
  \<^verbatim>\<open>0.3616\<close> and \<^verbatim>\<open>0.1808\<close> it stores \<open>0.998\<close> and \<open>0.003\<close>; with the doubles \<^verbatim>\<open>0.3616\<close> and
  \<^verbatim>\<open>0.1808\<close> themselves, where the exact quotients are \<open>399/400\<close> and \<open>1/400\<close>, it stores
  \<open>0.998\<close> and \<open>0.002\<close>.
\<close>

lemma likelihood_A_above_tie:
  "d_compute_joint_pr 9 (3257003250514343 / 9007199254740992) 10 = Inr (Finite (4978842503586831 / 73786976294838206464))"
proof (rule d_compute_joint_pr_eval [where p = "3899469379375651 / 36893488147419103232" and om = "5750196004226649 / 9007199254740992" and q = "5750196004226649 / 9007199254740992"])
  show "fl ((3257003250514343 / 9007199254740992) ^ nat 9) = 3899469379375651 / 36893488147419103232"
    using fl_eval [where x = "(3257003250514343 / 9007199254740992) ^ nat 9" and e = "- 14" and m = 7798938758751302]
      by (simp add: rhe_def Let_def power_divide)
  show "fl (1 - 3257003250514343 / 9007199254740992) = 5750196004226649 / 9007199254740992"
    using fl_eval [where x = "1 - 3257003250514343 / 9007199254740992" and e = "- 1" and m = 5750196004226649]
      by (simp add: rhe_def Let_def)
  show "fl ((5750196004226649 / 9007199254740992) ^ nat (10 - 9)) = 5750196004226649 / 9007199254740992"
    using fl_eval [where x = "(5750196004226649 / 9007199254740992) ^ nat (10 - 9)" and e = "- 1" and m = 5750196004226649]
      by (simp add: rhe_def Let_def power_divide)
  show "fl ((3899469379375651 / 36893488147419103232) * (5750196004226649 / 9007199254740992)) = 4978842503586831 / 73786976294838206464"
    using fl_eval [where x = "(3899469379375651 / 36893488147419103232) * (5750196004226649 / 9007199254740992)" and e = "- 14" and m = 4978842503586831]
      by (simp add: rhe_def Let_def)
qed simp_all

lemma likelihood_B_above_tie:
  "d_compute_joint_pr 9 (3257003250514343 / 18014398509481984) 10 = Inr (Finite (3194445315584533 / 18889465931478580854784))"
proof (rule d_compute_joint_pr_eval [where p = "3899469379375651 / 18889465931478580854784" and om = "1844674407370955 / 2251799813685248" and q = "1844674407370955 / 2251799813685248"])
  show "fl ((3257003250514343 / 18014398509481984) ^ nat 9) = 3899469379375651 / 18889465931478580854784"
    using fl_eval [where x = "(3257003250514343 / 18014398509481984) ^ nat 9" and e = "- 23" and m = 7798938758751302]
      by (simp add: rhe_def Let_def power_divide)
  show "fl (1 - 3257003250514343 / 18014398509481984) = 1844674407370955 / 2251799813685248"
    using fl_eval [where x = "1 - 3257003250514343 / 18014398509481984" and e = "- 1" and m = 7378697629483820]
      by (simp add: rhe_def Let_def)
  show "fl ((1844674407370955 / 2251799813685248) ^ nat (10 - 9)) = 1844674407370955 / 2251799813685248"
    using fl_eval [where x = "(1844674407370955 / 2251799813685248) ^ nat (10 - 9)" and e = "- 1" and m = 7378697629483820]
      by (simp add: rhe_def Let_def power_divide)
  show "fl ((3899469379375651 / 18889465931478580854784) * (1844674407370955 / 2251799813685248)) = 3194445315584533 / 18889465931478580854784"
    using fl_eval [where x = "(3899469379375651 / 18889465931478580854784) * (1844674407370955 / 2251799813685248)" and e = "- 23" and m = 6388890631169066]
      by (simp add: rhe_def Let_def)
qed simp_all

lemma d_e_row_above_tie:
  "d_e_row 0 9 (3257003250514343 / 9007199254740992) (3257003250514343 / 18014398509481984) 5 =
     Inr \<lparr>d_draw = Finite 1, d_x_heads = Finite 9,
          d_lk_A = Finite (4494592428115755 / 4503599627370496),
          d_lk_B = Finite (3458764513820541 / 1152921504606846976)\<rparr>"
proof -
  have t: "fl (4978842503586831 / 73786976294838206464 + 3194445315584533 / 18889465931478580854784) = 4991320805600833 / 73786976294838206464"
    using fl_eval [where x = "4978842503586831 / 73786976294838206464 + 3194445315584533 / 18889465931478580854784" and e = "- 14" and m = 4991320805600833]
    by (simp add: rhe_def Let_def)
  have qa: "fl ((4978842503586831 / 73786976294838206464) / (4991320805600833 / 73786976294838206464)) = 2246170314151035 / 2251799813685248"
    using fl_eval [where x = "(4978842503586831 / 73786976294838206464) / (4991320805600833 / 73786976294838206464)" and e = "- 1" and m = 8984681256604140]
    by (simp add: rhe_def Let_def)
  have qb: "fl ((3194445315584533 / 18889465931478580854784) / (4991320805600833 / 73786976294838206464)) = 5764607523034235 / 2305843009213693952"
    using fl_eval [where x = "(3194445315584533 / 18889465931478580854784) / (4991320805600833 / 73786976294838206464)" and e = "- 9" and m = 5764607523034235]
    by (simp add: rhe_def Let_def)
  have ra: "fl (real_of_int \<lfloor>(2246170314151035 / 2251799813685248 :: real) * 1000 + 1 / 2\<rfloor> / 1000) = 4494592428115755 / 4503599627370496"
    using fl_eval [where x = "998 / 1000" and e = "- 1" and m = 8989184856231510]
    by (simp add: rhe_def Let_def)
  have rb: "fl (real_of_int \<lfloor>(5764607523034235 / 2305843009213693952 :: real) * 1000 + 1 / 2\<rfloor> / 1000) = 3458764513820541 / 1152921504606846976"
    using fl_eval [where x = "3 / 1000" and e = "- 9" and m = 6917529027641082]
    by (simp add: rhe_def Let_def)
  have dr: "fl (real (0 + 1)) = 1"
    using fl_of_int [of 1] by simp
  show ?thesis
    using d_e_row_eval [OF _ _ _ _ _ _ _ likelihood_A_above_tie likelihood_B_above_tie _ t qa qb ra rb dr] by simp
qed

lemma likelihood_A_at_tie:
  "d_compute_joint_pr 9 (6514006501028685 / 18014398509481984) 10 = Inr (Finite (4978842503586825 / 73786976294838206464))"
proof (rule d_compute_joint_pr_eval [where p = "7798938758751291 / 73786976294838206464" and om = "2875098002113325 / 4503599627370496" and q = "2875098002113325 / 4503599627370496"])
  show "fl ((6514006501028685 / 18014398509481984) ^ nat 9) = 7798938758751291 / 73786976294838206464"
    using fl_eval [where x = "(6514006501028685 / 18014398509481984) ^ nat 9" and e = "- 14" and m = 7798938758751291]
      by (simp add: rhe_def Let_def power_divide)
  show "fl (1 - 6514006501028685 / 18014398509481984) = 2875098002113325 / 4503599627370496"
    using fl_eval [where x = "1 - 6514006501028685 / 18014398509481984" and e = "- 1" and m = 5750196004226650]
      by (simp add: rhe_def Let_def)
  show "fl ((2875098002113325 / 4503599627370496) ^ nat (10 - 9)) = 2875098002113325 / 4503599627370496"
    using fl_eval [where x = "(2875098002113325 / 4503599627370496) ^ nat (10 - 9)" and e = "- 1" and m = 5750196004226650]
      by (simp add: rhe_def Let_def power_divide)
  show "fl ((7798938758751291 / 73786976294838206464) * (2875098002113325 / 4503599627370496)) = 4978842503586825 / 73786976294838206464"
    using fl_eval [where x = "(7798938758751291 / 73786976294838206464) * (2875098002113325 / 4503599627370496)" and e = "- 14" and m = 4978842503586825]
      by (simp add: rhe_def Let_def)
qed simp_all

lemma likelihood_B_at_tie:
  "d_compute_joint_pr 9 (6514006501028685 / 36028797018963968) 10 = Inr (Finite (3194445315584529 / 18889465931478580854784))"
proof (rule d_compute_joint_pr_eval [where p = "7798938758751291 / 37778931862957161709568" and om = "7378697629483821 / 9007199254740992" and q = "7378697629483821 / 9007199254740992"])
  show "fl ((6514006501028685 / 36028797018963968) ^ nat 9) = 7798938758751291 / 37778931862957161709568"
    using fl_eval [where x = "(6514006501028685 / 36028797018963968) ^ nat 9" and e = "- 23" and m = 7798938758751291]
      by (simp add: rhe_def Let_def power_divide)
  show "fl (1 - 6514006501028685 / 36028797018963968) = 7378697629483821 / 9007199254740992"
    using fl_eval [where x = "1 - 6514006501028685 / 36028797018963968" and e = "- 1" and m = 7378697629483821]
      by (simp add: rhe_def Let_def)
  show "fl ((7378697629483821 / 9007199254740992) ^ nat (10 - 9)) = 7378697629483821 / 9007199254740992"
    using fl_eval [where x = "(7378697629483821 / 9007199254740992) ^ nat (10 - 9)" and e = "- 1" and m = 7378697629483821]
      by (simp add: rhe_def Let_def power_divide)
  show "fl ((7798938758751291 / 37778931862957161709568) * (7378697629483821 / 9007199254740992)) = 3194445315584529 / 18889465931478580854784"
    using fl_eval [where x = "(7798938758751291 / 37778931862957161709568) * (7378697629483821 / 9007199254740992)" and e = "- 23" and m = 6388890631169058]
      by (simp add: rhe_def Let_def)
qed simp_all

lemma d_e_row_at_tie:
  "d_e_row 0 9 (6514006501028685 / 18014398509481984) (6514006501028685 / 36028797018963968) 5 =
     Inr \<lparr>d_draw = Finite 1, d_x_heads = Finite 9,
          d_lk_A = Finite (4494592428115755 / 4503599627370496),
          d_lk_B = Finite (1152921504606847 / 576460752303423488)\<rparr>"
proof -
  have t: "fl (4978842503586825 / 73786976294838206464 + 3194445315584529 / 18889465931478580854784) = 4991320805600827 / 73786976294838206464"
    using fl_eval [where x = "4978842503586825 / 73786976294838206464 + 3194445315584529 / 18889465931478580854784" and e = "- 14" and m = 4991320805600827]
    by (simp add: rhe_def Let_def)
  have qa: "fl ((4978842503586825 / 73786976294838206464) / (4991320805600827 / 73786976294838206464)) = 2246170314151035 / 2251799813685248"
    using fl_eval [where x = "(4978842503586825 / 73786976294838206464) / (4991320805600827 / 73786976294838206464)" and e = "- 1" and m = 8984681256604140]
    by (simp add: rhe_def Let_def)
  have qb: "fl ((3194445315584529 / 18889465931478580854784) / (4991320805600827 / 73786976294838206464)) = 2882303761517117 / 1152921504606846976"
    using fl_eval [where x = "(3194445315584529 / 18889465931478580854784) / (4991320805600827 / 73786976294838206464)" and e = "- 9" and m = 5764607523034234]
    by (simp add: rhe_def Let_def)
  have ra: "fl (real_of_int \<lfloor>(2246170314151035 / 2251799813685248 :: real) * 1000 + 1 / 2\<rfloor> / 1000) = 4494592428115755 / 4503599627370496"
    using fl_eval [where x = "998 / 1000" and e = "- 1" and m = 8989184856231510]
    by (simp add: rhe_def Let_def)
  have rb: "fl (real_of_int \<lfloor>(2882303761517117 / 1152921504606846976 :: real) * 1000 + 1 / 2\<rfloor> / 1000) = 1152921504606847 / 576460752303423488"
    using fl_eval [where x = "2 / 1000" and e = "- 9" and m = 4611686018427388]
    by (simp add: rhe_def Let_def)
  have dr: "fl (real (0 + 1)) = 1"
    using fl_of_int [of 1] by simp
  show ?thesis
    using d_e_row_eval [OF _ _ _ _ _ _ _ likelihood_A_at_tie likelihood_B_at_tie _ t qa qb ra rb dr] by simp
qed



lemma d_e_row_IndexError:
  assumes "0 \<le> theta_A" and "theta_A \<le> 1" and "0 \<le> theta_B" and "theta_B \<le> 1"
    and "0 \<le> heads" and "heads \<le> 10" and "nrows \<le> i"
  shows "d_e_row i heads theta_A theta_B nrows = Inl IndexError"
proof -
  obtain a where a: "d_compute_joint_pr heads theta_A 10 = Inr (Finite a)"
    using d_compute_joint_pr_unit [OF assms(1,2,5,6)] by blast
  obtain b where b: "d_compute_joint_pr heads theta_B 10 = Inr (Finite b)"
    using d_compute_joint_pr_unit [OF assms(3,4,5,6)] by blast
  show ?thesis
    unfolding d_e_row_def a b using assms(7) by (simp add: Let_def)
qed

lemma d_np_zeros_length: "length (d_np_zeros m) = m"
  by (simp add: d_np_zeros_def)

text \<open>
  The doubles \<^verbatim>\<open>1e-40\<close> and \<^verbatim>\<open>1e-50\<close> lie strictly between 0 and 1, yet for a draw of 10
  heads both likelihoods underflow to \<open>0.0\<close> and the division raises.
\<close>

theorem d_underflow_normalizer_counterexample:
  "0 < fl (1 / 10 ^ 40) \<and> fl (1 / 10 ^ 40) < 1 \<and> 0 < fl (1 / 10 ^ 50) \<and> fl (1 / 10 ^ 50) < 1
   \<and> d_compute_joint_pr 10 (fl (1 / 10 ^ 40)) 10 = Inr (Finite 0)
   \<and> d_compute_joint_pr 10 (fl (1 / 10 ^ 50)) 10 = Inr (Finite 0)
   \<and> d_e_row 0 10 (fl (1 / 10 ^ 40)) (fl (1 / 10 ^ 50)) 5 = Inl ZeroDivisionError
   \<and> d_e_step [10] (fl (1 / 10 ^ 40)) (fl (1 / 10 ^ 50)) = Inl ZeroDivisionError"
proof -
  have s: "(2::real) powi (- 132) < 1"
    using power_int_strict_increasing [of "- 132" 0 "2::real"] by simp
  have A: "d_compute_joint_pr 10 (fl (1 / 10 ^ 40)) 10 = Inr (Finite 0)"
    using fl_tiny_literal(1,2) by (intro d_compute_joint_pr_underflow) simp_all
  have B: "d_compute_joint_pr 10 (fl (1 / 10 ^ 50)) 10 = Inr (Finite 0)"
    using fl_tiny_literal(3,4) by (intro d_compute_joint_pr_underflow) simp_all
  have R: "d_e_row 0 10 (fl (1 / 10 ^ 40)) (fl (1 / 10 ^ 50)) 5 = Inl ZeroDivisionError"
    using A B by (rule d_e_row_zero) simp_all
  have S: "d_e_step [10] (fl (1 / 10 ^ 40)) (fl (1 / 10 ^ 50)) = Inl ZeroDivisionError"
    using R unfolding d_e_step_def by (simp add: d_np_zeros_length)
  from fl_tiny_literal s A B R S show ?thesis
    by (simp del: power_int_numeral_neg_numeral)
qed

text \<open>
  With \<open>\<theta>\<^sub>A = \<theta>\<^sub>B\<close> the double \<^verbatim>\<open>1e-40\<close>, neither 0 nor 1, a draw of 9 heads gets no
  responsibility: the likelihood underflows and the division raises. With the double
  \<^verbatim>\<open>0.3\<close> and six draws the sixth write is past the last row of the table.
\<close>

theorem d_equal_thetas_counterexample:
  "fl (1 / 10 ^ 40) \<noteq> 0 \<and> fl (1 / 10 ^ 40) \<noteq> 1
   \<and> d_e_step [9] (fl (1 / 10 ^ 40)) (fl (1 / 10 ^ 40)) = Inl ZeroDivisionError
   \<and> fl (3 / 10) \<noteq> 0 \<and> fl (3 / 10) \<noteq> 1
   \<and> d_e_step [5, 9, 8, 4, 7, 7] (fl (3 / 10)) (fl (3 / 10)) = Inl IndexError"
proof -
  have s: "(2::real) powi (- 132) < 1"
    using power_int_strict_increasing [of "- 132" 0 "2::real"] by simp
  have n: "fl (1 / 10 ^ 40) \<noteq> 0" "fl (1 / 10 ^ 40) \<noteq> 1"
    using fl_tiny_literal(1,2) s by simp_all
  have A: "d_compute_joint_pr 9 (fl (1 / 10 ^ 40)) 10 = Inr (Finite 0)"
    using fl_tiny_literal(1,2) by (intro d_compute_joint_pr_underflow) simp_all
  have R: "d_e_row 0 9 (fl (1 / 10 ^ 40)) (fl (1 / 10 ^ 40)) 5 = Inl ZeroDivisionError"
    using A A by (rule d_e_row_zero) simp_all
  have S: "d_e_step [9] (fl (1 / 10 ^ 40)) (fl (1 / 10 ^ 40)) = Inl ZeroDivisionError"
    using R unfolding d_e_step_def by (simp add: d_np_zeros_length)
  have m: "fl (3 / 10) \<noteq> 0" "fl (3 / 10) \<noteq> 1"
  proof -
    have "(0::real) < 2 powi (- 100)" by (rule two_powi_pos)
    with fl_3_10(1) show "fl (3 / 10) \<noteq> 0" by linarith
    have "(0::real) < 2 powi (- 53)" by (rule two_powi_pos)
    with fl_3_10(2) show "fl (3 / 10) \<noteq> 1" by linarith
  qed
  have ok: "d_e_row i h (fl (3 / 10)) (fl (3 / 10)) n =
      Inr \<lparr>d_draw = rnd (real (i + 1)), d_x_heads = Finite (of_int h),
           d_lk_A = Finite (1 / 2), d_lk_B = Finite (1 / 2)\<rparr>"
    if "0 \<le> h" "h \<le> 10" "i < n" for i h n
    using fl_3_10(1,2) that by (rule d_e_row_equal_thetas)
  have ie: "d_e_row i h (fl (3 / 10)) (fl (3 / 10)) n = Inl IndexError"
    if "0 \<le> h" "h \<le> 10" "n \<le> i" for i h n
    using fl_3_10(3,4,3,4) that by (rule d_e_row_IndexError)
  have T: "d_e_step [5, 9, 8, 4, 7, 7] (fl (3 / 10)) (fl (3 / 10)) = Inl IndexError"
    using ok ie unfolding d_e_step_def by (simp add: d_np_zeros_length)
  from n S m T show ?thesis by simp
qed

theorem d_e_loop_equal_thetas_witness:
  "2 powi (- 100) \<le> fl (3 / 10) \<and> fl (3 / 10) \<le> 1 - 2 powi (- 53)
   \<and> list_all (\<lambda>heads. 0 \<le> heads \<and> heads \<le> 10) notebook_data
   \<and> length notebook_data \<le> length (d_np_zeros 5)
   \<and> (\<exists>df. d_e_step notebook_data (fl (3 / 10)) (fl (3 / 10)) = Inr df
         \<and> d_lk_A (df ! 0) = Finite (1 / 2) \<and> d_lk_B (df ! 0) = Finite (1 / 2)
         \<and> d_lk_A (df ! 4) = Finite (1 / 2) \<and> d_lk_B (df ! 4) = Finite (1 / 2))"
proof -
  have h: "\<forall>heads\<in>set notebook_data. 0 \<le> heads \<and> heads \<le> 10"
    by (simp add: notebook_data_def)
  have l: "length notebook_data \<le> length (d_np_zeros 5)"
    by (simp add: notebook_data_def d_np_zeros_length)
  from d_e_loop_equal_thetas [OF fl_3_10(1,2) h l] obtain df
    where "d_e_loop 0 notebook_data (fl (3 / 10)) (fl (3 / 10)) (d_np_zeros 5) = Inr df"
      and "\<forall>i<length notebook_data.
             d_lk_A (df ! i) = Finite (1 / 2) \<and> d_lk_B (df ! i) = Finite (1 / 2)"
    by blast
  then have "d_e_step notebook_data (fl (3 / 10)) (fl (3 / 10)) = Inr df
      \<and> d_lk_A (df ! 0) = Finite (1 / 2) \<and> d_lk_B (df ! 0) = Finite (1 / 2)
      \<and> d_lk_A (df ! 4) = Finite (1 / 2) \<and> d_lk_B (df ! 4) = Finite (1 / 2)"
    by (simp add: d_e_step_def notebook_data_def)
  with fl_3_10(1,2) h l show ?thesis
    by (auto simp add: list_all_iff simp del: power_int_numeral_neg_numeral)
qed

lemma d_likelihood_zero_one:
  "d_compute_joint_pr 5 0 10 = Inr (Finite 0)" "d_compute_joint_pr 5 1 10 = Inr (Finite 0)"
proof -
  have one: "fl 1 = 1" using fl_of_int [of 1] by simp
  show "d_compute_joint_pr 5 0 10 = Inr (Finite 0)"
    by (rule d_compute_joint_pr_eval [where p = 0 and om = 1 and q = 1])
      (simp_all add: fl_zero one)
  show "d_compute_joint_pr 5 1 10 = Inr (Finite 0)"
    by (rule d_compute_joint_pr_eval [where p = 1 and om = 0 and q = 0])
      (simp_all add: fl_zero one)
qed

theorem d_e_row_normalizer_witness:
  "0 \<le> fl (3 / 10) \<and> fl (3 / 10) \<le> 1 \<and> (0::real) \<le> 1 / 2 \<and> (1 / 2 :: real) \<le> 1
   \<and> (0::int) \<le> 5 \<and> (5::int) \<le> 10 \<and> (0::nat) < 5
   \<and> (\<exists>a b t r. d_compute_joint_pr 5 (fl (3 / 10)) 10 = Inr (Finite a)
         \<and> d_compute_joint_pr 5 (1 / 2) 10 = Inr (Finite b) \<and> 0 < a \<and> 0 < b
         \<and> d_add (Finite a) (Finite b) = Finite t \<and> 0 < t
         \<and> d_e_row 0 5 (fl (3 / 10)) (1 / 2) 5 = Inr r)
   \<and> d_compute_joint_pr 5 0 10 = Inr (Finite 0) \<and> d_compute_joint_pr 5 1 10 = Inr (Finite 0)
   \<and> d_e_row 0 5 0 1 5 = Inl ZeroDivisionError"
proof -
  have r1: "2 powi (- 100) \<le> (1 / 2 :: real)" "(1 / 2 :: real) \<le> 1 - 2 powi (- 53)"
    by simp_all
  from d_e_row_normalizer [of "fl (3 / 10)" "1 / 2" 5 0 5] fl_3_10 r1
  have 1: "\<exists>a b t r. d_compute_joint_pr 5 (fl (3 / 10)) 10 = Inr (Finite a)
         \<and> d_compute_joint_pr 5 (1 / 2) 10 = Inr (Finite b) \<and> 0 < a \<and> 0 < b
         \<and> d_add (Finite a) (Finite b) = Finite t \<and> 0 < t
         \<and> d_e_row 0 5 (fl (3 / 10)) (1 / 2) 5 = Inr r"
    by (simp del: power_int_numeral_neg_numeral) (metis less_numeral_extra(3))
  from d_e_row_normalizer [of 0 1 5 0 5] d_likelihood_zero_one
  have 2: "d_e_row 0 5 0 1 5 = Inl ZeroDivisionError"
    by auto
  from 1 2 fl_3_10(3,4) d_likelihood_zero_one show ?thesis
    by simp
qed

theorem d_e_row_responsibilities_sum_witness:
  "0 \<le> fl (6 / 10) \<and> fl (6 / 10) \<le> 1 \<and> (0::real) \<le> 1 / 2 \<and> (1 / 2 :: real) \<le> 1
   \<and> (0::int) \<le> 5 \<and> (5::int) \<le> 10
   \<and> (\<exists>r kA kB. d_e_row 0 5 (fl (6 / 10)) (1 / 2) 5 = Inr r
         \<and> d_lk_A r = Finite (fl (of_int kA / 1000)) \<and> d_lk_B r = Finite (fl (of_int kB / 1000))
         \<and> 0 \<le> kA \<and> 0 \<le> kB \<and> 999 \<le> kA + kB \<and> kA + kB \<le> 1001)"
proof -
  have a0: "0 \<le> fl (6 / 10)" by (rule fl_nonneg) simp
  have "(6 / 10 :: real) \<le> 2 powi 0" by simp
  then have "fl (6 / 10) \<le> 2 powi 0" by (rule fl_le_two_powi) simp
  then have a1: "fl (6 / 10) \<le> 1" by simp
  have r1: "2 powi (- 100) \<le> (1 / 2 :: real)" "(1 / 2 :: real) \<le> 1 - 2 powi (- 53)"
    by simp_all
  obtain r where r: "d_e_row 0 5 (fl (6 / 10)) (1 / 2) 5 = Inr r"
    using d_e_row_returns [OF a0 a1 r1, of 5 0 5] by auto
  from d_e_row_responsibilities_sum [OF a0 a1 _ _ _ _ r] r a0 a1 show ?thesis
    by auto
qed

text \<open>
  For a draw of 9 heads and the doubles \<open>\<theta>\<^sub>A = 0.36160000000000003\<close>,
  \<open>\<theta>\<^sub>B = 0.18080000000000002\<close> both likelihoods are positive and the stored responsibilities
  are the doubles \<open>0.998\<close> and \<open>0.003\<close>, whose sum, exact or rounded, is not 1.
\<close>

theorem d_rounded_responsibilities_sum_counterexample:
  "fl (3257003250514343 / 9007199254740992) = 3257003250514343 / 9007199254740992
   \<and> fl (3257003250514343 / 18014398509481984) = 3257003250514343 / 18014398509481984
   \<and> d_compute_joint_pr 9 (3257003250514343 / 9007199254740992) 10 = Inr (Finite (4978842503586831 / 73786976294838206464))
   \<and> d_compute_joint_pr 9 (3257003250514343 / 18014398509481984) 10 = Inr (Finite (3194445315584533 / 18889465931478580854784))
   \<and> d_e_row 0 9 (3257003250514343 / 9007199254740992) (3257003250514343 / 18014398509481984) 5 =
       Inr \<lparr>d_draw = Finite 1, d_x_heads = Finite 9,
            d_lk_A = Finite (4494592428115755 / 4503599627370496),
            d_lk_B = Finite (3458764513820541 / 1152921504606846976)\<rparr>
   \<and> fl (998 / 1000) = 4494592428115755 / 4503599627370496
   \<and> fl (3 / 1000) = 3458764513820541 / 1152921504606846976
   \<and> d_add (Finite (4494592428115755 / 4503599627370496)) (Finite (3458764513820541 / 1152921504606846976)) = Finite (2254051613498933 / 2251799813685248)
   \<and> (2254051613498933 / 2251799813685248 :: real) \<noteq> 1"
proof -
  have a: "fl (3257003250514343 / 9007199254740992) = 3257003250514343 / 9007199254740992"
    using fl_exact [where x = "3257003250514343 / 9007199254740992" and m = 3257003250514343 and g = "- 53"] by simp
  have b: "fl (3257003250514343 / 18014398509481984) = 3257003250514343 / 18014398509481984"
    using fl_exact [where x = "3257003250514343 / 18014398509481984" and m = 3257003250514343 and g = "- 54"] by simp
  have ra: "fl (998 / 1000) = 4494592428115755 / 4503599627370496"
    using fl_eval [where x = "998 / 1000" and e = "- 1" and m = 8989184856231510]
    by (simp add: rhe_def Let_def)
  have rb: "fl (3 / 1000) = 3458764513820541 / 1152921504606846976"
    using fl_eval [where x = "3 / 1000" and e = "- 9" and m = 6917529027641082]
    by (simp add: rhe_def Let_def)
  have s: "fl (4494592428115755 / 4503599627370496 + 3458764513820541 / 1152921504606846976) = 2254051613498933 / 2251799813685248"
    using fl_eval [where x = "4494592428115755 / 4503599627370496 + 3458764513820541 / 1152921504606846976" and e = "0" and m = 4508103226997866]
    by (simp add: rhe_def Let_def)
  have "rnd (4494592428115755 / 4503599627370496 + 3458764513820541 / 1152921504606846976) = Finite (2254051613498933 / 2251799813685248)"
    using s by (rule rnd_eval) simp
  then have d: "d_add (Finite (4494592428115755 / 4503599627370496)) (Finite (3458764513820541 / 1152921504606846976)) = Finite (2254051613498933 / 2251799813685248)"
    by simp
  have n: "(2254051613498933 / 2251799813685248 :: real) \<noteq> 1"
    by simp
  from a b likelihood_A_above_tie likelihood_B_above_tie d_e_row_above_tie ra rb d n
  show ?thesis
    by blast
qed

end
